theory Spec2Isabelle
  imports Main "HOL-Library.AList"
begin

section \<open>The type graph (graphql-js schema objects, as the tool generator reads them)\<close>

text \<open>
  A GraphQL type reference is a named type or a wrapper around another reference
  (\<open>ofType\<close>). Named types live in the schema's type map, keyed by name; a reference
  \<open>Named n\<close> stands for the type object registered under \<open>n\<close>, so the kind predicates
  (\<open>isObjectType\<close>, ...) look the name up in the schema.
\<close>

datatype gtype = Named string | ListT gtype | NonNullT gtype

text \<open>
  An argument as the schema library exposes it. \<open>argDefaultValue\<close> is the library's
  \<open>arg.defaultValue\<close>: \<open>None\<close> stands for \<open>undefined\<close>, which the library gives for an
  argument that declares no default and also for a declared default that does not coerce to
  the argument's type. Argument and field names are GraphQL names; the name \<open>__proto__\<close>,
  which an object literal of the host language treats specially, is not considered.
\<close>

record garg =
  argName :: string
  argType :: gtype
  argDescription :: "string option"
  argDefaultValue :: "string option"

record gfield =
  fieldType :: gtype
  fieldArgs :: "garg list"
  fieldDescription :: "string option"

record ginputfield =
  inputType :: gtype
  inputDescription :: "string option"
  inputDefaultValue :: "string option"

datatype gnamed =
    ScalarType
  | EnumType "string list"
  | ObjectType "(string \<times> gfield) list"
  | InterfaceType "(string \<times> gfield) list"
  | UnionType
  | InputObjectType "(string \<times> ginputfield) list"

record schema =
  typeMap :: "(string \<times> gnamed) list"
  queryType :: "string option"
  mutationType :: "string option"

definition lookupType :: "schema \<Rightarrow> string \<Rightarrow> gnamed option" where
  "lookupType S n = map_of (typeMap S) n"

fun isNonNullType :: "gtype \<Rightarrow> bool" where
  "isNonNullType (NonNullT t) = True"
| "isNonNullType t = False"

fun isListType :: "gtype \<Rightarrow> bool" where
  "isListType (ListT t) = True"
| "isListType t = False"

fun ofType :: "gtype \<Rightarrow> gtype" where
  "ofType (NonNullT t) = t"
| "ofType (ListT t) = t"
| "ofType t = t"

fun isScalarType :: "schema \<Rightarrow> gtype \<Rightarrow> bool" where
  "isScalarType S (Named n) = (case lookupType S n of Some ScalarType \<Rightarrow> True | _ \<Rightarrow> False)"
| "isScalarType S t = False"

fun isEnumType :: "schema \<Rightarrow> gtype \<Rightarrow> bool" where
  "isEnumType S (Named n) = (case lookupType S n of Some (EnumType vs) \<Rightarrow> True | _ \<Rightarrow> False)"
| "isEnumType S t = False"

fun isObjectType :: "schema \<Rightarrow> gtype \<Rightarrow> bool" where
  "isObjectType S (Named n) = (case lookupType S n of Some (ObjectType fs) \<Rightarrow> True | _ \<Rightarrow> False)"
| "isObjectType S t = False"

fun isInterfaceType :: "schema \<Rightarrow> gtype \<Rightarrow> bool" where
  "isInterfaceType S (Named n) =
     (case lookupType S n of Some (InterfaceType fs) \<Rightarrow> True | _ \<Rightarrow> False)"
| "isInterfaceType S t = False"

fun isUnionType :: "schema \<Rightarrow> gtype \<Rightarrow> bool" where
  "isUnionType S (Named n) = (case lookupType S n of Some UnionType \<Rightarrow> True | _ \<Rightarrow> False)"
| "isUnionType S t = False"

fun isInputObjectType :: "schema \<Rightarrow> gtype \<Rightarrow> bool" where
  "isInputObjectType S (Named n) =
     (case lookupType S n of Some (InputObjectType fs) \<Rightarrow> True | _ \<Rightarrow> False)"
| "isInputObjectType S t = False"

text \<open>\<open>type.name\<close> of a named type.\<close>

fun nameOf :: "gtype \<Rightarrow> string" where
  "nameOf (Named n) = n"
| "nameOf t = []"

text \<open>\<open>actualType.getFields()\<close> of the object or interface type registered under a name,
  in declaration order (\<open>Object.entries\<close>).\<close>

definition getFields :: "schema \<Rightarrow> string \<Rightarrow> (string \<times> gfield) list" where
  "getFields S n =
     (case lookupType S n of
        Some (ObjectType fs) \<Rightarrow> fs
      | Some (InterfaceType fs) \<Rightarrow> fs
      | _ \<Rightarrow> [])"

definition getInputFields :: "schema \<Rightarrow> string \<Rightarrow> (string \<times> ginputfield) list" where
  "getInputFields S n =
     (case lookupType S n of Some (InputObjectType fs) \<Rightarrow> fs | _ \<Rightarrow> [])"

definition getEnumValues :: "schema \<Rightarrow> string \<Rightarrow> string list" where
  "getEnumValues S n = (case lookupType S n of Some (EnumType vs) \<Rightarrow> vs | _ \<Rightarrow> [])"

section \<open>String helpers of the host language\<close>

definition newline :: string where
  "newline = [CHR 0x0A]"

text \<open>\<open>s.repeat(n)\<close>\<close>

definition repeat :: "string \<Rightarrow> nat \<Rightarrow> string" where
  "repeat s n = concat (replicate n s)"

text \<open>\<open>xs.join(sep)\<close>\<close>

fun join :: "string \<Rightarrow> string list \<Rightarrow> string" where
  "join sep [] = []"
| "join sep [x] = x"
| "join sep (x # y # ys) = x @ sep @ join sep (y # ys)"

text \<open>\<open>s.startsWith(p)\<close>\<close>

definition startsWith :: "string \<Rightarrow> string \<Rightarrow> bool" where
  "startsWith s p = (take (length p) s = p)"

section \<open>The selection caches and the field-selection synthesizer\<close>

text \<open>The two module-level maps \<open>typeFieldSelectionCache\<close> and
  \<open>minimalFieldSelectionCache\<close>, passed explicitly.\<close>

record caches =
  typeFieldSelectionCache :: "string \<rightharpoonup> string"
  minimalFieldSelectionCache :: "string \<rightharpoonup> string"

text \<open>Both caches empty, as at module load.\<close>

definition emptyCaches :: caches where
  "emptyCaches = \<lparr>typeFieldSelectionCache = Map.empty, minimalFieldSelectionCache = Map.empty\<rparr>"

definition getMinimalFieldSelection :: "schema \<Rightarrow> string \<Rightarrow> caches \<Rightarrow> string \<times> caches" where
  "getMinimalFieldSelection S typeName st =
     (case minimalFieldSelectionCache st typeName of
        Some s \<Rightarrow> (s, st)
      | None \<Rightarrow>
          (let fields = getFields S typeName;
               minimalSelection =
                 (if map_of fields ''documentId'' \<noteq> None then ''{ documentId }''
                  else if map_of fields ''id'' \<noteq> None then ''{ id }''
                  else [])
           in (minimalSelection,
               st\<lparr>minimalFieldSelectionCache :=
                    (minimalFieldSelectionCache st)(typeName \<mapsto> minimalSelection)\<rparr>)))"

text \<open>The three conditional unwrapping steps shared by both generators:
  one non-null, one list, one non-null.\<close>

definition underlyingType :: "gtype \<Rightarrow> gtype" where
  "underlyingType t =
     (let c1 = (if isNonNullType t then ofType t else t);
          c2 = (if isListType c1 then ofType c1 else c1);
          c3 = (if isNonNullType c2 then ofType c2 else c2)
      in c3)"

definition renderSelection :: "nat \<Rightarrow> string list \<Rightarrow> string" where
  "renderSelection depth fieldSelections =
     (if length fieldSelections > 0
      then ''{'' @ newline @ repeat ''  '' (depth + 1)
           @ join (newline @ repeat ''  '' (depth + 1)) fieldSelections
           @ newline @ repeat ''  '' depth @ ''}''
      else [])"

function generateFullFieldSelection :: "schema \<Rightarrow> string \<Rightarrow> nat \<Rightarrow> caches \<Rightarrow> string \<times> caches"
  and generateFullFieldSelection_loop ::
    "schema \<Rightarrow> string \<Rightarrow> nat \<Rightarrow> (string \<times> gfield) list \<Rightarrow> string list \<Rightarrow> caches
       \<Rightarrow> string list \<times> caches"
where
  "generateFullFieldSelection S typeName depth st =
     (case typeFieldSelectionCache st typeName of
        Some s \<Rightarrow> (s, st)
      | None \<Rightarrow>
          if depth > 3 then
            (let (minimal, st1) = getMinimalFieldSelection S typeName st
             in (minimal,
                 st1\<lparr>typeFieldSelectionCache :=
                       (typeFieldSelectionCache st1)(typeName \<mapsto> minimal)\<rparr>))
          else
            (let (fieldSelections, st1) =
                   generateFullFieldSelection_loop S typeName depth (getFields S typeName) [] st;
                 selection = renderSelection depth fieldSelections
             in (selection,
                 st1\<lparr>typeFieldSelectionCache :=
                       (typeFieldSelectionCache st1)(typeName \<mapsto> selection)\<rparr>)))"
| "generateFullFieldSelection_loop S typeName depth [] fieldSelections st =
     (fieldSelections, st)"
| "generateFullFieldSelection_loop S typeName depth ((fieldName, field) # rest) fieldSelections st =
     (let checkType = underlyingType (fieldType field) in
      if isObjectType S checkType \<or> isInterfaceType S checkType then
        (if nameOf checkType = typeName then
           (let (minimal, st1) = getMinimalFieldSelection S (nameOf checkType) st
            in generateFullFieldSelection_loop S typeName depth rest
                 (if minimal \<noteq> [] then fieldSelections @ [fieldName @ '' '' @ minimal]
                  else fieldSelections) st1)
         else
           (let (nestedSelection, st1) =
                  generateFullFieldSelection S (nameOf checkType) (depth + 1) st
            in generateFullFieldSelection_loop S typeName depth rest
                 (fieldSelections @
                    [if nestedSelection \<noteq> [] then fieldName @ '' '' @ nestedSelection
                     else fieldName]) st1))
      else if isUnionType S checkType then
        generateFullFieldSelection_loop S typeName depth rest
          (fieldSelections @ [fieldName @ '' { __typename }'']) st
      else
        generateFullFieldSelection_loop S typeName depth rest (fieldSelections @ [fieldName]) st)"
  by pat_completeness auto
termination
  by (relation "measures
        [\<lambda>x. case x of
                Inl (S, t, d, st) \<Rightarrow> (if d > 3 then 0 else 2 * (4 - d) + 2)
              | Inr (S, t, d, fs, acc, st) \<Rightarrow> 2 * (4 - d) + 1,
         \<lambda>x. case x of
                Inl (S, t, d, st) \<Rightarrow> 0
              | Inr (S, t, d, fs, acc, st) \<Rightarrow> length fs]") auto

text \<open>The defining equation of \<open>generateFullFieldSelection\<close> is unfolded by hand in the
  proofs below.\<close>

declare generateFullFieldSelection.simps [simp del]

definition generateFieldSelection ::
  "schema \<Rightarrow> gtype \<Rightarrow> string set \<Rightarrow> nat \<Rightarrow> caches \<Rightarrow> string \<times> caches" where
  "generateFieldSelection S type visited depth st =
     (let actualType = underlyingType type in
      if isScalarType S actualType \<or> isEnumType S actualType then ([], st)
      else if isObjectType S actualType \<or> isInterfaceType S actualType then
        (if nameOf actualType \<in> visited then getMinimalFieldSelection S (nameOf actualType) st
         else
           (case typeFieldSelectionCache st (nameOf actualType) of
              Some s \<Rightarrow> (s, st)
            | None \<Rightarrow> generateFullFieldSelection S (nameOf actualType) depth st))
      else if isUnionType S actualType then (''{ __typename }'', st)
      else ([], st))"

section \<open>The parameter-schema synthesizer\<close>

text \<open>The JSON-schema objects built by \<open>getJSONSchemaType\<close>: the \<open>type\<close> key is always
  present, the other keys only where the code sets them.\<close>

datatype jschema =
  JSchema (jsType: string)
          (jsItems: "jschema option")
          (jsEnum: "string list option")
          (jsProperties: "(string \<times> jschema) list option")
          (jsRequired: "string list option")
          (jsDescription: "string option")

fun setDescription :: "string \<Rightarrow> jschema \<Rightarrow> jschema" where
  "setDescription d (JSchema t i e p r old) = JSchema t i e p r (Some d)"

text \<open>\<open>if (x.description) target.description = x.description\<close>: an absent or empty
  description leaves the target as it is.\<close>

definition withDescription :: "string option \<Rightarrow> jschema \<Rightarrow> jschema" where
  "withDescription d js =
     (case d of None \<Rightarrow> js | Some text \<Rightarrow> if text \<noteq> [] then setDescription text js else js)"

definition scalarSchema :: "string \<Rightarrow> jschema" where
  "scalarSchema n =
     (if n = ''String'' \<or> n = ''ID'' then JSchema ''string'' None None None None None
      else if n = ''Int'' then JSchema ''integer'' None None None None None
      else if n = ''Float'' then JSchema ''number'' None None None None None
      else if n = ''Boolean'' then JSchema ''boolean'' None None None None None
      else JSchema ''string'' None None None None None)"

text \<open>\<open>...(required.length > 0 && { required })\<close>\<close>

definition requiredKey :: "string list \<Rightarrow> string list option" where
  "requiredKey required = (if length required > 0 then Some required else None)"

function getJSONSchemaType :: "schema \<Rightarrow> gtype \<Rightarrow> string set \<Rightarrow> jschema"
  and getJSONSchemaType_loop ::
    "schema \<Rightarrow> (string \<times> ginputfield) list \<Rightarrow> string set
       \<Rightarrow> (string \<times> jschema) list \<Rightarrow> string list \<Rightarrow> (string \<times> jschema) list \<times> string list"
where
  "getJSONSchemaType S (NonNullT t) visited = getJSONSchemaType S t visited"
| "getJSONSchemaType S (ListT t) visited =
     JSchema ''array'' (Some (getJSONSchemaType S t visited)) None None None None"
| "getJSONSchemaType S (Named n) visited =
     (if isScalarType S (Named n) then scalarSchema n
      else if isEnumType S (Named n) then
        JSchema ''string'' None (Some (getEnumValues S n)) None None None
      else if isInputObjectType S (Named n) then
        (if n \<in> visited then
           JSchema ''object'' None None None None (Some (''Circular reference to '' @ n))
         else
           (let (properties, required) =
                  getJSONSchemaType_loop S (getInputFields S n) (insert n visited) [] []
            in JSchema ''object'' None None (Some properties) (requiredKey required) None))
      else JSchema ''object'' None None None None None)"
| "getJSONSchemaType_loop S [] visited properties required = (properties, required)"
| "getJSONSchemaType_loop S ((fieldName, field) # rest) visited properties required =
     (let property = withDescription (inputDescription field)
                       (getJSONSchemaType S (inputType field) visited)
      in getJSONSchemaType_loop S rest visited
           (AList.update fieldName property properties)
           (if isNonNullType (inputType field) then required @ [fieldName] else required))"
  by pat_completeness auto
termination
proof (relation "measures
        [\<lambda>x. case x of
                Inl (S, t, visited) \<Rightarrow> card (fst ` set (typeMap S) - visited)
              | Inr (S, fs, visited, ps, rs) \<Rightarrow> card (fst ` set (typeMap S) - visited),
         \<lambda>x. case x of Inl (S, t, visited) \<Rightarrow> 0 | Inr (S, fs, visited, ps, rs) \<Rightarrow> 1,
         \<lambda>x. case x of
                Inl (S, t, visited) \<Rightarrow> size t
              | Inr (S, fs, visited, ps, rs) \<Rightarrow> length fs]", goal_cases)
  case 1
  then show ?case by simp
next
  case (2 S t visited)
  then show ?case by simp
next
  case (3 S t visited)
  then show ?case by simp
next
  case (4 S n visited)
  then obtain d where "lookupType S n = Some d"
    by (auto split: option.splits)
  then have "n \<in> fst ` set (typeMap S)"
    unfolding lookupType_def by (metis map_of_eq_None_iff option.distinct(1))
  with 4 have "fst ` set (typeMap S) - insert n visited \<subset> fst ` set (typeMap S) - visited"
    by blast
  then have "card (fst ` set (typeMap S) - insert n visited) < card (fst ` set (typeMap S) - visited)"
    by (intro psubset_card_mono) auto
  then show ?case by simp
next
  case (5 S fieldName field rest visited properties required)
  then show ?case by simp
next
  case (6 S fieldName field rest visited properties required x)
  then show ?case by simp
qed

section \<open>The operation registry builder\<close>

datatype operationType = Query | Mutation

fun operationTypeString :: "operationType \<Rightarrow> string" where
  "operationTypeString Query = ''query''"
| "operationTypeString Mutation = ''mutation''"

record inputSchema =
  schemaType :: string
  schemaProperties :: "(string \<times> jschema) list"
  schemaRequired :: "string list option"

record graphqlInfo =
  gqlFieldName :: string
  gqlOperationType :: operationType
  gqlArgs :: "garg list"
  gqlReturnType :: gtype
  gqlFieldSelection :: string

record MCPTool =
  toolName :: string
  toolDescription :: string
  toolInputSchema :: inputSchema
  toolGraphql :: "graphqlInfo option"

text \<open>The loop over \<open>field.args\<close> in \<open>generateToolForField\<close>; every argument type is
  converted with a fresh visited set.\<close>

fun generateToolForField_args ::
  "schema \<Rightarrow> garg list \<Rightarrow> (string \<times> jschema) list \<Rightarrow> string list
     \<Rightarrow> (string \<times> jschema) list \<times> string list" where
  "generateToolForField_args S [] properties required = (properties, required)"
| "generateToolForField_args S (arg # rest) properties required =
     (let property = withDescription (argDescription arg) (getJSONSchemaType S (argType arg) {})
      in generateToolForField_args S rest
           (AList.update (argName arg) property properties)
           (if isNonNullType (argType arg) \<and> argDefaultValue arg = None
            then required @ [argName arg] else required))"

definition generateToolForField ::
  "schema \<Rightarrow> string \<Rightarrow> gfield \<Rightarrow> operationType \<Rightarrow> caches \<Rightarrow> MCPTool \<times> caches" where
  "generateToolForField S fieldName field opType st =
     (let (properties, required) = generateToolForField_args S (fieldArgs field) [] [];
          (fieldSelection, st1) = generateFieldSelection S (fieldType field) {} 0 st
      in (\<lparr>toolName = operationTypeString opType @ ''_'' @ fieldName,
           toolDescription =
             (case fieldDescription field of
                Some d \<Rightarrow>
                  if d \<noteq> [] then d
                  else ''Execute GraphQL '' @ operationTypeString opType @ '': '' @ fieldName
              | None \<Rightarrow> ''Execute GraphQL '' @ operationTypeString opType @ '': '' @ fieldName),
           toolInputSchema =
             \<lparr>schemaType = ''object'', schemaProperties = properties,
              schemaRequired = requiredKey required\<rparr>,
           toolGraphql =
             Some \<lparr>gqlFieldName = fieldName, gqlOperationType = opType,
                   gqlArgs = fieldArgs field, gqlReturnType = fieldType field,
                   gqlFieldSelection = fieldSelection\<rparr>\<rparr>,
          st1))"

definition clearFieldSelectionCaches :: "caches \<Rightarrow> caches" where
  "clearFieldSelectionCaches st =
     st\<lparr>typeFieldSelectionCache := Map.empty, minimalFieldSelectionCache := Map.empty\<rparr>"

text \<open>The pre-generation loop over \<open>Object.entries(typeMap)\<close>. The type map is keyed by
  type name, so the type object of an entry is the one registered under the entry's name, and
  the kind tests on it are the tests on that name.\<close>

fun prewarm :: "schema \<Rightarrow> (string \<times> gnamed) list \<Rightarrow> caches \<Rightarrow> caches" where
  "prewarm S [] st = st"
| "prewarm S ((typeName, type) # rest) st =
     (if isObjectType S (Named typeName) \<or> isInterfaceType S (Named typeName) then
        (if \<not> startsWith typeName ''__'' then
           prewarm S rest (snd (generateFullFieldSelection S typeName 0 st))
         else prewarm S rest st)
      else prewarm S rest st)"

text \<open>The loops over the fields of the root query and mutation types.\<close>

fun generateTools ::
  "schema \<Rightarrow> operationType \<Rightarrow> (string \<times> gfield) list \<Rightarrow> MCPTool list \<Rightarrow> caches
     \<Rightarrow> MCPTool list \<times> caches" where
  "generateTools S opType [] tools st = (tools, st)"
| "generateTools S opType ((fieldName, field) # rest) tools st =
     (let (tool, st1) = generateToolForField S fieldName field opType st
      in generateTools S opType rest (tools @ [tool]) st1)"

definition generateMCPToolsFromSchema :: "schema \<Rightarrow> caches \<Rightarrow> MCPTool list \<times> caches" where
  "generateMCPToolsFromSchema S st =
     (let st0 = clearFieldSelectionCaches st;
          st1 = prewarm S (typeMap S) st0;
          (tools1, st2) =
            (case queryType S of
               Some q \<Rightarrow> generateTools S Query (getFields S q) [] st1
             | None \<Rightarrow> ([], st1));
          (tools2, st3) =
            (case mutationType S of
               Some m \<Rightarrow> generateTools S Mutation (getFields S m) tools1 st2
             | None \<Rightarrow> (tools1, st2))
      in (tools2, st3))"

text \<open>\<open>getFieldSelectionCache\<close>\<close>

definition getFieldSelectionCache :: "caches \<Rightarrow> (string \<rightharpoonup> string) \<times> (string \<rightharpoonup> string)" where
  "getFieldSelectionCache st = (typeFieldSelectionCache st, minimalFieldSelectionCache st)"

section \<open>The operation executor (the call-tool handler of the server)\<close>

text \<open>Argument values as the handler can tell them apart.\<close>

datatype jsvalue =
    JSUndefined
  | JSNull
  | JSBoolean bool
  | JSNumber int
  | JSNaN
  | JSString string
  | JSObject

text \<open>The \<open>arguments\<close> of a call: absent, null, or an object with its own properties and the
  properties it inherits through its prototype chain.\<close>

datatype jsargs =
    ArgsUndefined
  | ArgsNull
  | ArgsObject "(string \<times> jsvalue) list" "(string \<times> jsvalue) list"

text \<open>\<open>Object.prototype.hasOwnProperty.call(args, param)\<close>\<close>

fun hasOwnProperty :: "jsargs \<Rightarrow> string \<Rightarrow> bool" where
  "hasOwnProperty (ArgsObject own inherited) param = (map_of own param \<noteq> None)"
| "hasOwnProperty a param = False"

text \<open>\<open>args[param]\<close>: own properties first, then the prototype chain, else undefined.\<close>

fun getProperty :: "jsargs \<Rightarrow> string \<Rightarrow> jsvalue" where
  "getProperty (ArgsObject own inherited) param =
     (case map_of own param of
        Some v \<Rightarrow> v
      | None \<Rightarrow> (case map_of inherited param of Some v \<Rightarrow> v | None \<Rightarrow> JSUndefined))"
| "getProperty a param = JSUndefined"

definition isMissing :: "jsargs \<Rightarrow> string \<Rightarrow> bool" where
  "isMissing args param =
     (args = ArgsUndefined \<or> args = ArgsNull \<or> \<not> hasOwnProperty args param
      \<or> getProperty args param = JSUndefined \<or> getProperty args param = JSNull)"

fun validateRequiredParameters_loop :: "jsargs \<Rightarrow> string list \<Rightarrow> string list \<Rightarrow> string list" where
  "validateRequiredParameters_loop args [] missingParams = missingParams"
| "validateRequiredParameters_loop args (param # rest) missingParams =
     validateRequiredParameters_loop args rest
       (if isMissing args param then missingParams @ [param] else missingParams)"

text \<open>\<open>tool.inputSchema.required || []\<close>\<close>

definition requiredParams :: "MCPTool \<Rightarrow> string list" where
  "requiredParams tool =
     (case schemaRequired (toolInputSchema tool) of Some r \<Rightarrow> r | None \<Rightarrow> [])"

definition validateRequiredParameters :: "MCPTool \<Rightarrow> jsargs \<Rightarrow> string list" where
  "validateRequiredParameters tool args =
     validateRequiredParameters_loop args (requiredParams tool) []"

fun getGraphQLVariableType :: "gtype \<Rightarrow> string" where
  "getGraphQLVariableType (NonNullT t) = getGraphQLVariableType t @ ''!''"
| "getGraphQLVariableType (ListT t) = ''['' @ getGraphQLVariableType t @ '']''"
| "getGraphQLVariableType (Named n) = n"

text \<open>\<open>s.trim()\<close>, on the ASCII white space.\<close>

definition isWhiteSpace :: "char \<Rightarrow> bool" where
  "isWhiteSpace c = (c \<in> set [CHR '' '', CHR 0x09, CHR 0x0A, CHR 0x0B, CHR 0x0C, CHR 0x0D])"

definition trim :: "string \<Rightarrow> string" where
  "trim s = rev (dropWhile isWhiteSpace (rev (dropWhile isWhiteSpace s)))"

definition buildGraphQLOperation :: "graphqlInfo \<Rightarrow> string" where
  "buildGraphQLOperation graphqlInfo =
     (let fieldName = gqlFieldName graphqlInfo;
          variableDeclarations =
            join '', ''
              (map (\<lambda>arg. ''$'' @ argName arg @ '': '' @ getGraphQLVariableType (argType arg))
                 (gqlArgs graphqlInfo));
          variableUsage =
            join '', '' (map (\<lambda>arg. argName arg @ '': $'' @ argName arg) (gqlArgs graphqlInfo));
          operation =
            newline @ ''      '' @ operationTypeString (gqlOperationType graphqlInfo) @ '' ''
            @ fieldName @ ''Operation''
            @ (if variableDeclarations \<noteq> [] then ''('' @ variableDeclarations @ '')'' else [])
            @ '' {'' @ newline @ ''        '' @ fieldName
            @ (if variableUsage \<noteq> [] then ''('' @ variableUsage @ '')'' else [])
            @ '' '' @ gqlFieldSelection graphqlInfo @ newline @ ''      }'' @ newline @ ''    ''
      in trim operation)"

text \<open>What a \<open>throw\<close> or a rejected request hands to the \<open>catch\<close> block: an \<open>Error\<close> with
  its message, or some other value.\<close>

datatype thrown = ErrorObject string | OtherValue

text \<open>The upstream GraphQL client is an external collaborator: \<open>request(query, variables)\<close>
  either rejects, or resolves with a result, taken here already rendered by
  \<open>JSON.stringify\<close>.\<close>

type_synonym upstream = "string \<Rightarrow> jsargs \<Rightarrow> thrown + string"

record callToolResult =
  contentText :: string
  isError :: bool

text \<open>\<open>this.tools.find(t => t.name === name)\<close>\<close>

definition findTool :: "MCPTool list \<Rightarrow> string \<Rightarrow> MCPTool option" where
  "findTool tools name = List.find (\<lambda>t. toolName t = name) tools"

text \<open>The body of the \<open>try\<close> block; \<open>Inl\<close> is what it throws.\<close>

definition callToolBody :: "MCPTool list \<Rightarrow> upstream \<Rightarrow> string \<Rightarrow> jsargs \<Rightarrow> thrown + string" where
  "callToolBody tools request name args =
     (case findTool tools name of
        None \<Rightarrow> Inl (ErrorObject (''Unknown tool: '' @ name))
      | Some tool \<Rightarrow>
          (case toolGraphql tool of
             None \<Rightarrow> Inl (ErrorObject (''Unknown tool: '' @ name))
           | Some graphqlInfo \<Rightarrow>
               (let missingParams = validateRequiredParameters tool args in
                if length missingParams > 0 then
                  Inl (ErrorObject (''Missing required parameters: '' @ join '', '' missingParams))
                else request (buildGraphQLOperation graphqlInfo) args)))"

definition callTool :: "MCPTool list \<Rightarrow> upstream \<Rightarrow> string \<Rightarrow> jsargs \<Rightarrow> callToolResult" where
  "callTool tools request name args =
     (case callToolBody tools request name args of
        Inr text \<Rightarrow> \<lparr>contentText = text, isError = False\<rparr>
      | Inl error \<Rightarrow>
          (let errorMessage =
                 (case error of ErrorObject message \<Rightarrow> message | OtherValue \<Rightarrow> ''Unknown error'')
           in \<lparr>contentText = ''Error executing '' @ name @ '': '' @ errorMessage,
               isError = True\<rparr>))"

section \<open>Notions used to state the properties\<close>

text \<open>The fields of a root operation type (\<open>schema.getQueryType()\<close>, \<open>getMutationType()\<close>),
  none when the schema has no such root.\<close>

definition rootFields :: "schema \<Rightarrow> string option \<Rightarrow> (string \<times> gfield) list" where
  "rootFields S root = (case root of Some n \<Rightarrow> getFields S n | None \<Rightarrow> [])"

text \<open>The number of list layers wrapped around the named base type.\<close>

fun listDepth :: "gtype \<Rightarrow> nat" where
  "listDepth (Named n) = 0"
| "listDepth (ListT t) = Suc (listDepth t)"
| "listDepth (NonNullT t) = listDepth t"

text \<open>A required parameter counts as supplied when the argument object has it as an own
  property whose value is neither undefined nor null; inherited properties play no part.\<close>

definition suppliedOwn :: "jsargs \<Rightarrow> string \<Rightarrow> bool" where
  "suppliedOwn args param =
     (case args of
        ArgsObject own inherited \<Rightarrow>
          (case map_of own param of Some v \<Rightarrow> v \<noteq> JSUndefined \<and> v \<noteq> JSNull | None \<Rightarrow> False)
      | _ \<Rightarrow> False)"

text \<open>Brace counts of a selection string.\<close>

definition openBraces :: "string \<Rightarrow> nat" where
  "openBraces s = length (filter (\<lambda>c. c = CHR ''{'') s)"

definition closeBraces :: "string \<Rightarrow> nat" where
  "closeBraces s = length (filter (\<lambda>c. c = CHR ''}'') s)"

definition balanced :: "string \<Rightarrow> bool" where
  "balanced s = (openBraces s = closeBraces s)"

definition braceFree :: "string \<Rightarrow> bool" where
  "braceFree s = (openBraces s = 0 \<and> closeBraces s = 0)"

fun declaredFields :: "gnamed \<Rightarrow> (string \<times> gfield) list" where
  "declaredFields (ObjectType fs) = fs"
| "declaredFields (InterfaceType fs) = fs"
| "declaredFields d = []"

text \<open>Field names are GraphQL names (letters, digits and underscores; the schema library
  rejects anything else when it constructs a type), so in particular they contain no brace.\<close>

definition fieldNamesBraceFree :: "schema \<Rightarrow> bool" where
  "fieldNamesBraceFree S =
     list_all (\<lambda>entry. list_all (\<lambda>f. braceFree (fst f)) (declaredFields (snd entry))) (typeMap S)"

definition cachesBalanced :: "caches \<Rightarrow> bool" where
  "cachesBalanced st =
     ((\<forall>n s. typeFieldSelectionCache st n = Some s \<longrightarrow> balanced s)
      \<and> (\<forall>n s. minimalFieldSelectionCache st n = Some s \<longrightarrow> balanced s))"

definition toolBalanced :: "MCPTool \<Rightarrow> bool" where
  "toolBalanced tool =
     (case toolGraphql tool of Some g \<Rightarrow> balanced (gqlFieldSelection g) | None \<Rightarrow> True)"

text \<open>Notions for stating which fields carry a sub-selection. A field is composite, as the
  generator sees it, when its type unwraps (by the three steps) to an object or interface
  type.\<close>

definition composite :: "schema \<Rightarrow> gtype \<Rightarrow> bool" where
  "composite S t = (isObjectType S (underlyingType t) \<or> isInterfaceType S (underlyingType t))"

definition minimalOf :: "schema \<Rightarrow> string \<Rightarrow> string" where
  "minimalOf S n = fst (getMinimalFieldSelection S n emptyCaches)"

definition leafField :: "schema \<Rightarrow> gfield \<Rightarrow> bool" where
  "leafField S f = (\<not> composite S (fieldType f) \<and> \<not> isUnionType S (underlyingType (fieldType f)))"

definition leafId :: "schema \<Rightarrow> string \<Rightarrow> bool" where
  "leafId S n =
     (case map_of (getFields S n) ''documentId'' of
        Some f \<Rightarrow> leafField S f
      | None \<Rightarrow> (case map_of (getFields S n) ''id'' of Some f \<Rightarrow> leafField S f | None \<Rightarrow> False))"

definition generatedType :: "schema \<Rightarrow> string \<Rightarrow> bool" where
  "generatedType S n =
     ((isObjectType S (Named n) \<or> isInterfaceType S (Named n)) \<and> \<not> startsWith n ''__'')"

definition selectable :: "schema \<Rightarrow> string \<Rightarrow> bool" where
  "selectable S n = (generatedType S n \<and> leafId S n)"

definition fieldSelectable :: "schema \<Rightarrow> string \<times> gfield \<Rightarrow> bool" where
  "fieldSelectable S f =
     (composite S (fieldType (snd f)) \<longrightarrow>
        selectable S (nameOf (underlyingType (fieldType (snd f)))))"

definition fieldsSelectable :: "schema \<Rightarrow> string \<Rightarrow> bool" where
  "fieldsSelectable S n = list_all (fieldSelectable S) (getFields S n)"

definition nestedTypesSelectable :: "schema \<Rightarrow> bool" where
  "nestedTypesSelectable S =
     (list_all (\<lambda>entry. generatedType S (fst entry) \<longrightarrow> fieldsSelectable S (fst entry)) (typeMap S)
      \<and> list_all (fieldSelectable S) (rootFields S (queryType S))
      \<and> list_all (fieldSelectable S) (rootFields S (mutationType S)))"

text \<open>
  A selection string for the type named \<open>n\<close> in which no composite field is bare: it is the
  minimal selection on a leaf field, or the rendering of one entry per field of the type,
  where the entry of a composite field is the field name followed by a non-empty
  sub-selection that is again of this kind for the field's type, the entry of a union field
  is the field name with the type-name selection, and the entry of any other field is the
  field name.
\<close>

inductive wfSelection :: "schema \<Rightarrow> string \<Rightarrow> string \<Rightarrow> bool" for S :: schema where
  minimal: "leafId S n \<Longrightarrow> wfSelection S n (minimalOf S n)"
| full: "length (getFields S n) = length es \<Longrightarrow>
         \<forall>(f, e) \<in> set (zip (getFields S n) es).
           (composite S (fieldType (snd f)) \<longrightarrow>
              (\<exists>sel. sel \<noteq> [] \<and> e = fst f @ '' '' @ sel
                 \<and> wfSelection S (nameOf (underlyingType (fieldType (snd f)))) sel))
           \<and> (\<not> composite S (fieldType (snd f)) \<longrightarrow>
                 isUnionType S (underlyingType (fieldType (snd f))) \<longrightarrow>
                 e = fst f @ '' { __typename }'')
           \<and> (\<not> composite S (fieldType (snd f)) \<longrightarrow>
                 \<not> isUnionType S (underlyingType (fieldType (snd f))) \<longrightarrow> e = fst f)
         \<Longrightarrow> wfSelection S n (renderSelection depth es)"

text \<open>The condition on one entry, for use in the proofs.\<close>

definition entryFor :: "schema \<Rightarrow> string \<times> gfield \<Rightarrow> string \<Rightarrow> bool" where
  "entryFor S f e =
     ((composite S (fieldType (snd f)) \<longrightarrow>
         (\<exists>sel. sel \<noteq> [] \<and> e = fst f @ '' '' @ sel
            \<and> wfSelection S (nameOf (underlyingType (fieldType (snd f)))) sel))
      \<and> (\<not> composite S (fieldType (snd f)) \<longrightarrow>
            isUnionType S (underlyingType (fieldType (snd f))) \<longrightarrow>
            e = fst f @ '' { __typename }'')
      \<and> (\<not> composite S (fieldType (snd f)) \<longrightarrow>
            \<not> isUnionType S (underlyingType (fieldType (snd f))) \<longrightarrow> e = fst f))"

definition cachesWF :: "schema \<Rightarrow> caches \<Rightarrow> bool" where
  "cachesWF S st =
     ((\<forall>n s. typeFieldSelectionCache st n = Some s \<longrightarrow>
          wfSelection S n s \<and> (leafId S n \<longrightarrow> s \<noteq> []))
      \<and> (\<forall>n s. minimalFieldSelectionCache st n = Some s \<longrightarrow> s = minimalOf S n))"

definition toolSelectionWF :: "schema \<Rightarrow> MCPTool \<Rightarrow> bool" where
  "toolSelectionWF S tool =
     (case toolGraphql tool of
        None \<Rightarrow> True
      | Some g \<Rightarrow>
          (composite S (gqlReturnType g) \<longrightarrow>
             gqlFieldSelection g \<noteq> []
             \<and> wfSelection S (nameOf (underlyingType (gqlReturnType g))) (gqlFieldSelection g)))"

text \<open>Every entry of the first state is present, with the same string, in the second.\<close>

definition keepsEntries :: "caches \<Rightarrow> caches \<Rightarrow> bool" where
  "keepsEntries st st' =
     ((\<forall>n v. typeFieldSelectionCache st n = Some v \<longrightarrow> typeFieldSelectionCache st' n = Some v)
      \<and> (\<forall>n v. minimalFieldSelectionCache st n = Some v \<longrightarrow>
            minimalFieldSelectionCache st' n = Some v))"

section \<open>Example inputs\<close>

definition mkfield :: "gtype \<Rightarrow> gfield" where
  "mkfield t = \<lparr>fieldType = t, fieldArgs = [], fieldDescription = None\<rparr>"

text \<open>
  \<^verbatim>\<open>type Query { user(id: ID!): User }\<close>
  \<^verbatim>\<open>type User { id: ID  posts: [Post] }\<close>
  \<^verbatim>\<open>type Post { id: ID  author: User }\<close>
\<close>

definition blogSchema :: schema where
  "blogSchema =
     \<lparr>typeMap =
        [(''Query'',
          ObjectType
            [(''user'',
              \<lparr>fieldType = Named ''User'',
               fieldArgs =
                 [\<lparr>argName = ''id'', argType = NonNullT (Named ''ID''),
                   argDescription = None, argDefaultValue = None\<rparr>],
               fieldDescription = None\<rparr>)]),
         (''ID'', ScalarType),
         (''User'',
          ObjectType [(''id'', mkfield (Named ''ID'')), (''posts'', mkfield (ListT (Named ''Post'')))]),
         (''Post'',
          ObjectType [(''id'', mkfield (Named ''ID'')), (''author'', mkfield (Named ''User''))])],
      queryType = Some ''Query'', mutationType = None\<rparr>"

definition blogTools :: "MCPTool list" where
  "blogTools = fst (generateMCPToolsFromSchema blogSchema emptyCaches)"

text \<open>An upstream that resolves with the operation text it was sent.\<close>

definition echoUpstream :: upstream where
  "echoUpstream query args = Inr query"

definition searchTool :: MCPTool where
  "searchTool =
     \<lparr>toolName = ''query_search'', toolDescription = ''Execute GraphQL query: search'',
      toolInputSchema =
        \<lparr>schemaType = ''object'',
         schemaProperties =
           [(''term'', JSchema ''string'' None None None None None),
            (''exact'', JSchema ''boolean'' None None None None None),
            (''limit'', JSchema ''integer'' None None None None None),
            (''score'', JSchema ''number'' None None None None None)],
         schemaRequired = Some [''term'', ''exact'', ''limit'', ''score'']\<rparr>,
      toolGraphql =
        Some \<lparr>gqlFieldName = ''search'', gqlOperationType = Query,
              gqlArgs =
                [\<lparr>argName = ''term'', argType = NonNullT (Named ''String''),
                  argDescription = None, argDefaultValue = None\<rparr>,
                 \<lparr>argName = ''exact'', argType = NonNullT (Named ''Boolean''),
                  argDescription = None, argDefaultValue = None\<rparr>,
                 \<lparr>argName = ''limit'', argType = NonNullT (Named ''Int''),
                  argDescription = None, argDefaultValue = None\<rparr>,
                 \<lparr>argName = ''score'', argType = NonNullT (Named ''Float''),
                  argDescription = None, argDefaultValue = None\<rparr>],
              gqlReturnType = Named ''Int'', gqlFieldSelection = []\<rparr>\<rparr>"

text \<open>The same schema with its types listed in another order.\<close>

definition blogSchemaUserFirst :: schema where
  "blogSchemaUserFirst =
     blogSchema\<lparr>typeMap :=
       [(''User'',
          ObjectType [(''id'', mkfield (Named ''ID'')), (''posts'', mkfield (ListT (Named ''Post'')))]),
        (''Post'',
          ObjectType [(''id'', mkfield (Named ''ID'')), (''author'', mkfield (Named ''User''))]),
        (''ID'', ScalarType),
        (''Query'',
          ObjectType
            [(''user'',
              \<lparr>fieldType = Named ''User'',
               fieldArgs =
                 [\<lparr>argName = ''id'', argType = NonNullT (Named ''ID''),
                   argDescription = None, argDefaultValue = None\<rparr>],
               fieldDescription = None\<rparr>)])]\<rparr>"

text \<open>
  \<^verbatim>\<open>type Query { users(limit: Int! = 10, role: UserRole!): [User] }\<close>
  \<^verbatim>\<open>type Mutation { createUser(input: CreateUserInput!): User }\<close>
  \<^verbatim>\<open>input CreateUserInput { name: String!  age: Int  role: UserRole! = USER }\<close>
\<close>

definition accountSchema :: schema where
  "accountSchema =
     \<lparr>typeMap =
        [(''Query'',
          ObjectType
            [(''users'',
              \<lparr>fieldType = ListT (Named ''User''),
               fieldArgs =
                 [\<lparr>argName = ''limit'', argType = NonNullT (Named ''Int''),
                   argDescription = None, argDefaultValue = Some ''10''\<rparr>,
                  \<lparr>argName = ''role'', argType = NonNullT (Named ''UserRole''),
                   argDescription = None, argDefaultValue = None\<rparr>],
               fieldDescription = None\<rparr>)]),
         (''Mutation'',
          ObjectType
            [(''createUser'',
              \<lparr>fieldType = Named ''User'',
               fieldArgs =
                 [\<lparr>argName = ''input'', argType = NonNullT (Named ''CreateUserInput''),
                   argDescription = None, argDefaultValue = None\<rparr>],
               fieldDescription = None\<rparr>)]),
         (''User'',
          ObjectType [(''id'', mkfield (Named ''ID'')), (''name'', mkfield (Named ''String''))]),
         (''CreateUserInput'',
          InputObjectType
            [(''name'', \<lparr>inputType = NonNullT (Named ''String''), inputDescription = None,
                         inputDefaultValue = None\<rparr>),
             (''age'', \<lparr>inputType = Named ''Int'', inputDescription = None,
                        inputDefaultValue = None\<rparr>),
             (''role'', \<lparr>inputType = NonNullT (Named ''UserRole''), inputDescription = None,
                         inputDefaultValue = Some ''USER''\<rparr>)]),
         (''UserRole'', EnumType [''ADMIN'', ''USER'']),
         (''ID'', ScalarType), (''String'', ScalarType), (''Int'', ScalarType)],
      queryType = Some ''Query'', mutationType = Some ''Mutation''\<rparr>"

definition accountTools :: "MCPTool list" where
  "accountTools = fst (generateMCPToolsFromSchema accountSchema emptyCaches)"

text \<open>
  A chain of object types four levels below the root, ending in a type that has neither an
  \<open>id\<close> nor a \<open>documentId\<close> field:
  \<^verbatim>\<open>type Query { company: Company }\<close>
  \<^verbatim>\<open>type Company { name: String  departments: [Department] }\<close>
  \<^verbatim>\<open>type Department { name: String  teams: [Team] }\<close>
  \<^verbatim>\<open>type Team { name: String  lead: Member }\<close>
  \<^verbatim>\<open>type Member { name: String  email: String }\<close>
\<close>

definition teamSchema :: schema where
  "teamSchema =
     \<lparr>typeMap =
        [(''Query'', ObjectType [(''company'', mkfield (Named ''Company''))]),
         (''Company'',
          ObjectType
            [(''name'', mkfield (Named ''String'')),
             (''departments'', mkfield (ListT (Named ''Department'')))]),
         (''Department'',
          ObjectType
            [(''name'', mkfield (Named ''String'')), (''teams'', mkfield (ListT (Named ''Team'')))]),
         (''Team'',
          ObjectType [(''name'', mkfield (Named ''String'')), (''lead'', mkfield (Named ''Member''))]),
         (''Member'',
          ObjectType [(''name'', mkfield (Named ''String'')), (''email'', mkfield (Named ''String''))]),
         (''String'', ScalarType)],
      queryType = Some ''Query'', mutationType = None\<rparr>"

text \<open>The caches after \<open>User\<close> has been reached at depth 4 and cut to its minimal selection.\<close>

definition userCutCaches :: caches where
  "userCutCaches = snd (generateFullFieldSelection blogSchema ''User'' 4 emptyCaches)"

text \<open>
  A schema whose two root types share a field name:
  \<^verbatim>\<open>type Query { item(id: ID!): Item  items: [Item] }\<close>
  \<^verbatim>\<open>type Mutation { item(id: ID!, name: String): Item  removeItem(id: ID!): Boolean }\<close>
  \<^verbatim>\<open>type Item { id: ID  name: String }\<close>
\<close>

definition catalogSchema :: schema where
  "catalogSchema =
     \<lparr>typeMap =
        [(''Query'',
          ObjectType
            [(''item'',
              \<lparr>fieldType = Named ''Item'',
               fieldArgs =
                 [\<lparr>argName = ''id'', argType = NonNullT (Named ''ID''),
                   argDescription = None, argDefaultValue = None\<rparr>],
               fieldDescription = None\<rparr>),
             (''items'', mkfield (ListT (Named ''Item'')))]),
         (''Mutation'',
          ObjectType
            [(''item'',
              \<lparr>fieldType = Named ''Item'',
               fieldArgs =
                 [\<lparr>argName = ''id'', argType = NonNullT (Named ''ID''),
                   argDescription = None, argDefaultValue = None\<rparr>,
                  \<lparr>argName = ''name'', argType = Named ''String'',
                   argDescription = None, argDefaultValue = None\<rparr>],
               fieldDescription = None\<rparr>),
             (''removeItem'',
              \<lparr>fieldType = Named ''Boolean'',
               fieldArgs =
                 [\<lparr>argName = ''id'', argType = NonNullT (Named ''ID''),
                   argDescription = None, argDefaultValue = None\<rparr>],
               fieldDescription = None\<rparr>)]),
         (''Item'',
          ObjectType [(''id'', mkfield (Named ''ID'')), (''name'', mkfield (Named ''String''))]),
         (''ID'', ScalarType), (''String'', ScalarType), (''Boolean'', ScalarType)],
      queryType = Some ''Query'', mutationType = Some ''Mutation''\<rparr>"

section \<open>Determinism of the registry build\<close>

lemma clearFieldSelectionCaches_const:
  "clearFieldSelectionCaches st1 = clearFieldSelectionCaches st2"
  by (simp add: clearFieldSelectionCaches_def)

text \<open>
  C7. The build starts by clearing both caches, so its whole result, the operation
  descriptors (with their field selections) and the two caches it leaves behind, is a
  function of the schema alone: whatever the caches held before, two builds of the same
  schema give identical descriptors, identical selection strings for every type name.
\<close>

theorem build_deterministic:
  "generateMCPToolsFromSchema S st1 = generateMCPToolsFromSchema S st2
   \<and> map toolGraphql (fst (generateMCPToolsFromSchema S st1))
       = map toolGraphql (fst (generateMCPToolsFromSchema S st2))
   \<and> getFieldSelectionCache (snd (generateMCPToolsFromSchema S st1))
       = getFieldSelectionCache (snd (generateMCPToolsFromSchema S st2))"
proof -
  have "generateMCPToolsFromSchema S st1 = generateMCPToolsFromSchema S st2"
    unfolding generateMCPToolsFromSchema_def
    by (simp add: clearFieldSelectionCaches_const[of st1 st2])
  then show ?thesis by simp
qed

section \<open>Operation names\<close>

lemma generateToolForField_name:
  "toolName (fst (generateToolForField S fieldName field opType st))
     = operationTypeString opType @ ''_'' @ fieldName"
  by (simp add: generateToolForField_def split: prod.splits)

lemma generateTools_names:
  "map toolName (fst (generateTools S opType fs tools st)) =
     map toolName tools @ map (\<lambda>f. operationTypeString opType @ ''_'' @ fst f) fs"
proof (induction fs arbitrary: tools st)
  case Nil
  then show ?case by simp
next
  case (Cons a fs)
  obtain fieldName field where a: "a = (fieldName, field)" by (cases a)
  obtain tool st1 where g: "generateToolForField S fieldName field opType st = (tool, st1)"
    by (cases "generateToolForField S fieldName field opType st")
  have "toolName tool = operationTypeString opType @ ''_'' @ fieldName"
    using generateToolForField_name[of S fieldName field opType st] g by simp
  then show ?case using Cons.IH[of "tools @ [tool]" st1] a g by simp
qed

lemma generateMCPToolsFromSchema_names:
  "map toolName (fst (generateMCPToolsFromSchema S st)) =
     map (\<lambda>f. ''query_'' @ fst f) (rootFields S (queryType S))
     @ map (\<lambda>f. ''mutation_'' @ fst f) (rootFields S (mutationType S))"
proof -
  define st1 where "st1 = prewarm S (typeMap S) (clearFieldSelectionCaches st)"
  define r1 where "r1 =
    (case queryType S of
       Some q \<Rightarrow> generateTools S Query (getFields S q) [] st1
     | None \<Rightarrow> ([], st1))"
  define r2 where "r2 =
    (case mutationType S of
       Some m \<Rightarrow> generateTools S Mutation (getFields S m) (fst r1) (snd r1)
     | None \<Rightarrow> (fst r1, snd r1))"
  have res: "generateMCPToolsFromSchema S st = r2"
    unfolding generateMCPToolsFromSchema_def r2_def r1_def st1_def
    by (simp add: Let_def split: prod.splits option.splits)
  have n1: "map toolName (fst r1) = map (\<lambda>f. ''query_'' @ fst f) (rootFields S (queryType S))"
    unfolding r1_def rootFields_def
    by (cases "queryType S") (simp_all add: generateTools_names)
  have n2: "map toolName (fst r2) =
              map toolName (fst r1)
              @ map (\<lambda>f. ''mutation_'' @ fst f) (rootFields S (mutationType S))"
    unfolding r2_def rootFields_def
    by (cases "mutationType S") (simp_all add: generateTools_names)
  show ?thesis using res n1 n2 by simp
qed

text \<open>
  C8. The descriptors of one build are named, in order, \<open>query_<fieldName>\<close> for the
  fields of the root query type and then \<open>mutation_<fieldName>\<close> for the fields of the
  root mutation type; the prefix is the operation type recorded in the descriptor; and no
  name occurs twice in the whole list. Field names are the keys of a field map, so they are
  distinct within one type; that is the only assumption. The witness is a schema with two
  query fields and two mutation fields, one field name being shared by the two root types.
\<close>

theorem operation_names_unique:
  assumes "distinct (map fst (rootFields S (queryType S)))"
    and "distinct (map fst (rootFields S (mutationType S)))"
  shows "map toolName (fst (generateMCPToolsFromSchema S st)) =
           map (\<lambda>f. ''query_'' @ fst f) (rootFields S (queryType S))
           @ map (\<lambda>f. ''mutation_'' @ fst f) (rootFields S (mutationType S))
         \<and> map toolName (fst (generateMCPToolsFromSchema S st)) =
           map (\<lambda>f. operationTypeString Query @ ''_'' @ fst f) (rootFields S (queryType S))
           @ map (\<lambda>f. operationTypeString Mutation @ ''_'' @ fst f)
               (rootFields S (mutationType S))
         \<and> distinct (map toolName (fst (generateMCPToolsFromSchema S st)))"
proof -
  have d1: "distinct (map (\<lambda>f. ''query_'' @ fst f) (rootFields S (queryType S)))"
    using assms(1) by (simp add: distinct_map inj_on_def)
  have d2: "distinct (map (\<lambda>f. ''mutation_'' @ fst f) (rootFields S (mutationType S)))"
    using assms(2) by (simp add: distinct_map inj_on_def)
  have d3: "set (map (\<lambda>f. ''query_'' @ fst f) (rootFields S (queryType S)))
            \<inter> set (map (\<lambda>f. ''mutation_'' @ fst f) (rootFields S (mutationType S))) = {}"
    by auto
  show ?thesis
    using d1 d2 d3 by (simp add: generateMCPToolsFromSchema_names)
qed

theorem operation_names_unique_witness:
  "distinct (map fst (rootFields catalogSchema (queryType catalogSchema)))
   \<and> distinct (map fst (rootFields catalogSchema (mutationType catalogSchema)))
   \<and> map fst (rootFields catalogSchema (queryType catalogSchema)) = [''item'', ''items'']
   \<and> map fst (rootFields catalogSchema (mutationType catalogSchema)) = [''item'', ''removeItem'']
   \<and> map toolName (fst (generateMCPToolsFromSchema catalogSchema emptyCaches))
       = [''query_item'', ''query_items'', ''mutation_item'', ''mutation_removeItem'']
   \<and> distinct (map toolName (fst (generateMCPToolsFromSchema catalogSchema emptyCaches)))"
proof -
  have q: "map fst (rootFields catalogSchema (queryType catalogSchema)) = [''item'', ''items'']"
    by code_simp
  have m: "map fst (rootFields catalogSchema (mutationType catalogSchema))
             = [''item'', ''removeItem'']"
    by code_simp
  have h1: "distinct (map fst (rootFields catalogSchema (queryType catalogSchema)))"
    by (simp add: q)
  have h2: "distinct (map fst (rootFields catalogSchema (mutationType catalogSchema)))"
    by (simp add: m)
  have f1: "map (\<lambda>f. ''query_'' @ fst f) (rootFields catalogSchema (queryType catalogSchema))
              = [''query_item'', ''query_items'']"
    by code_simp
  have f2: "map (\<lambda>f. ''mutation_'' @ fst f)
                (rootFields catalogSchema (mutationType catalogSchema))
              = [''mutation_item'', ''mutation_removeItem'']"
    by code_simp
  note t = operation_names_unique[OF h1 h2, of emptyCaches]
  have n: "map toolName (fst (generateMCPToolsFromSchema catalogSchema emptyCaches))
             = [''query_item'', ''query_items'', ''mutation_item'', ''mutation_removeItem'']"
  proof -
    from t have "map toolName (fst (generateMCPToolsFromSchema catalogSchema emptyCaches))
        = map (\<lambda>f. ''query_'' @ fst f) (rootFields catalogSchema (queryType catalogSchema))
          @ map (\<lambda>f. ''mutation_'' @ fst f)
              (rootFields catalogSchema (mutationType catalogSchema))"
      by (rule conjunct1)
    then show ?thesis unfolding f1 f2 by simp
  qed
  have d: "distinct (map toolName (fst (generateMCPToolsFromSchema catalogSchema emptyCaches)))"
    using t by blast
  show ?thesis
    using h1 h2 q m n d by blast
qed

section \<open>Wrapper stripping\<close>

lemma listDepth_strip_nonnull:
  "listDepth (if isNonNullType t then ofType t else t) = listDepth t"
  by (cases t) simp_all

lemma listDepth_strip_list:
  "listDepth t - 1 \<le> listDepth (if isListType t then ofType t else t)"
  by (cases t) simp_all

lemma listDepth_underlyingType: "listDepth t - 1 \<le> listDepth (underlyingType t)"
  unfolding underlyingType_def Let_def
  using listDepth_strip_list[of "if isNonNullType t then ofType t else t"]
  by (simp only: listDepth_strip_nonnull)

lemma listDepth_pos_not_named:
  assumes "0 < listDepth u"
  shows "\<not> isScalarType S u \<and> \<not> isEnumType S u \<and> \<not> isObjectType S u
         \<and> \<not> isInterfaceType S u \<and> \<not> isUnionType S u \<and> (\<forall>n. u \<noteq> Named n)"
  using assms by (cases u) auto

text \<open>
  C9. The unwrapping removes at most one list layer, so a type with two or more list
  layers never unwraps to a named type. For such a type the top-level selection is the
  empty string (and the caches are untouched), and a field of such a type is pushed as its
  bare name in the selection of the object that declares it.
\<close>

theorem nested_list_not_unwrapped:
  assumes "2 \<le> listDepth t"
  shows "listDepth t - 1 \<le> listDepth (underlyingType t)
       \<and> (\<forall>n. underlyingType t \<noteq> Named n)
       \<and> generateFieldSelection S t visited depth st = ([], st)
       \<and> generateFullFieldSelection_loop S typeName d
             ((fieldName, field\<lparr>fieldType := t\<rparr>) # rest) fieldSelections st
           = generateFullFieldSelection_loop S typeName d rest (fieldSelections @ [fieldName]) st"
proof -
  have "0 < listDepth (underlyingType t)"
    using assms listDepth_underlyingType[of t] by simp
  from listDepth_pos_not_named[OF this, of S] listDepth_underlyingType[of t]
  show ?thesis
    by (simp add: generateFieldSelection_def)
qed

theorem nested_list_not_unwrapped_witness:
  "2 \<le> listDepth (ListT (NonNullT (ListT (NonNullT (Named ''User'')))))
   \<and> underlyingType (ListT (NonNullT (ListT (NonNullT (Named ''User'')))))
       = ListT (NonNullT (Named ''User''))
   \<and> generateFieldSelection blogSchema (ListT (NonNullT (ListT (NonNullT (Named ''User''))))) {} 0
       emptyCaches = ([], emptyCaches)
   \<and> generateFullFieldSelection_loop blogSchema ''Query'' 0
       [(''grid'', mkfield (ListT (NonNullT (ListT (NonNullT (Named ''User''))))))] [] emptyCaches
       = ([''grid''], emptyCaches)"
proof -
  have h: "2 \<le> listDepth (ListT (NonNullT (ListT (NonNullT (Named ''User'')))))" by simp
  have u: "underlyingType (ListT (NonNullT (ListT (NonNullT (Named ''User'')))))
             = ListT (NonNullT (Named ''User''))"
    by (simp add: underlyingType_def)
  have m: "mkfield (ListT (NonNullT (ListT (NonNullT (Named ''User'')))))
             = (mkfield (Named ''ID''))\<lparr>fieldType := ListT (NonNullT (ListT (NonNullT (Named ''User''))))\<rparr>"
    by (simp add: mkfield_def)
  show ?thesis
    using nested_list_not_unwrapped[OF h, where S = blogSchema and visited = "{}" and depth = 0
        and st = emptyCaches and typeName = "''Query''" and d = 0 and fieldName = "''grid''"
        and field = "mkfield (Named ''ID'')" and rest = "[]" and fieldSelections = "[]"] h u
    by (simp add: m)
qed

section \<open>Validation of required parameters\<close>

lemma isMissing_iff: "isMissing args param = (\<not> suppliedOwn args param)"
  by (cases args) (auto simp: isMissing_def suppliedOwn_def split: option.splits)

lemma validateRequiredParameters_loop_filter:
  "validateRequiredParameters_loop args ps acc = acc @ filter (\<lambda>p. \<not> suppliedOwn args p) ps"
  by (induction ps arbitrary: acc) (simp_all add: isMissing_iff)

lemma validateRequiredParameters_filter:
  "validateRequiredParameters tool args
     = filter (\<lambda>p. \<not> suppliedOwn args p) (requiredParams tool)"
  by (simp add: validateRequiredParameters_def validateRequiredParameters_loop_filter)

text \<open>
  C6. For a known operation, validation returns exactly the required names that the
  argument map does not supply as an own property with a value other than undefined and
  null, all of them and in the order of the required list. When at least one is missing the
  call returns a result flagged as an error (nothing escapes the handler) whose text lists
  every missing name, and the upstream is not consulted. Inherited properties have no
  influence on the outcome.
\<close>

theorem missing_parameters_reported:
  assumes "findTool tools name = Some tool"
    and "toolGraphql tool = Some graphqlInfo"
    and "\<exists>p \<in> set (requiredParams tool). \<not> suppliedOwn args p"
  shows "validateRequiredParameters tool args
           = filter (\<lambda>p. \<not> suppliedOwn args p) (requiredParams tool)
       \<and> callTool tools request name args =
           \<lparr>contentText = ''Error executing '' @ name @ '': Missing required parameters: ''
               @ join '', '' (filter (\<lambda>p. \<not> suppliedOwn args p) (requiredParams tool)),
            isError = True\<rparr>
       \<and> validateRequiredParameters tool (ArgsObject own inherited)
           = validateRequiredParameters tool (ArgsObject own [])"
proof -
  have ne: "filter (\<lambda>p. \<not> suppliedOwn args p) (requiredParams tool) \<noteq> []"
    using assms(3) by (simp add: filter_empty_conv)
  have inh: "\<And>p. suppliedOwn (ArgsObject own inherited) p = suppliedOwn (ArgsObject own []) p"
    by (simp add: suppliedOwn_def)
  show ?thesis
    using assms(1,2) ne
    by (simp add: callTool_def callToolBody_def validateRequiredParameters_filter inh)
qed

theorem missing_parameters_reported_witness:
  "callTool blogTools echoUpstream ''query_user''
       (ArgsObject [] [(''id'', JSString ''inherited-value'')])
     = \<lparr>contentText = ''Error executing query_user: Missing required parameters: id'',
        isError = True\<rparr>"
proof -
  let ?tool = "the (findTool blogTools ''query_user'')"
  let ?args = "ArgsObject [] [(''id'', JSString ''inherited-value'')]"
  have h1: "findTool blogTools ''query_user'' = Some ?tool" by code_simp
  have h2: "toolGraphql ?tool = Some (the (toolGraphql ?tool))" by code_simp
  have h3: "\<exists>p \<in> set (requiredParams ?tool). \<not> suppliedOwn ?args p" by code_simp
  have h4: "filter (\<lambda>p. \<not> suppliedOwn ?args p) (requiredParams ?tool) = [''id'']" by code_simp
  show ?thesis
    using missing_parameters_reported[OF h1 h2 h3, of echoUpstream] by (simp add: h4)
qed

text \<open>
  C10. Validation reports a required name only when it is not supplied in the sense above:
  absent, undefined or null. When every required name is an own property with any other
  value, validation returns no name and the handler hands the built operation and the
  arguments to the upstream request. The witness supplies the empty string, false, zero and
  NaN.
\<close>

theorem present_values_pass:
  assumes "findTool tools name = Some tool"
    and "toolGraphql tool = Some graphqlInfo"
    and "\<forall>p \<in> set (requiredParams tool).
           \<exists>v. map_of own p = Some v \<and> v \<noteq> JSUndefined \<and> v \<noteq> JSNull"
  shows "validateRequiredParameters tool (ArgsObject own inherited) = []
       \<and> callToolBody tools request name (ArgsObject own inherited)
           = request (buildGraphQLOperation graphqlInfo) (ArgsObject own inherited)
       \<and> (\<forall>args p. p \<in> set (validateRequiredParameters tool args)
             \<longleftrightarrow> p \<in> set (requiredParams tool) \<and> \<not> suppliedOwn args p)"
proof -
  have "\<forall>p \<in> set (requiredParams tool). suppliedOwn (ArgsObject own inherited) p"
    using assms(3) by (auto simp: suppliedOwn_def)
  then have e: "filter (\<lambda>p. \<not> suppliedOwn (ArgsObject own inherited) p) (requiredParams tool) = []"
    by (simp add: filter_empty_conv)
  show ?thesis
    using assms(1,2) e
    by (auto simp add: callToolBody_def validateRequiredParameters_filter)
qed

theorem present_values_pass_witness:
  "validateRequiredParameters searchTool
      (ArgsObject [(''term'', JSString []), (''exact'', JSBoolean False),
                   (''limit'', JSNumber 0), (''score'', JSNaN)] []) = []
   \<and> callTool [searchTool] echoUpstream ''query_search''
      (ArgsObject [(''term'', JSString []), (''exact'', JSBoolean False),
                   (''limit'', JSNumber 0), (''score'', JSNaN)] [])
     = \<lparr>contentText = buildGraphQLOperation (the (toolGraphql searchTool)), isError = False\<rparr>"
proof -
  let ?own = "[(''term'', JSString []), (''exact'', JSBoolean False),
               (''limit'', JSNumber 0), (''score'', JSNaN)]"
  have h1: "findTool [searchTool] ''query_search'' = Some searchTool" by code_simp
  have h2: "toolGraphql searchTool = Some (the (toolGraphql searchTool))" by code_simp
  have h3: "\<forall>p \<in> set (requiredParams searchTool).
              \<exists>v. map_of ?own p = Some v \<and> v \<noteq> JSUndefined \<and> v \<noteq> JSNull"
    by (simp add: requiredParams_def searchTool_def)
  show ?thesis
    using present_values_pass[OF h1 h2 h3, where inherited = "[]" and request = echoUpstream]
    by (simp add: callTool_def echoUpstream_def)
qed

section \<open>Termination and balanced braces\<close>

lemma openBraces_append: "openBraces (a @ b) = openBraces a + openBraces b"
  by (simp add: openBraces_def)

lemma closeBraces_append: "closeBraces (a @ b) = closeBraces a + closeBraces b"
  by (simp add: closeBraces_def)

lemma openBraces_repeat_indent: "openBraces (repeat ''  '' n) = 0"
  by (induction n) (simp_all add: repeat_def openBraces_def)

lemma closeBraces_repeat_indent: "closeBraces (repeat ''  '' n) = 0"
  by (induction n) (simp_all add: repeat_def closeBraces_def)

lemma braceFree_balanced: "braceFree s \<Longrightarrow> balanced s"
  by (simp add: braceFree_def balanced_def)

lemma balanced_join:
  assumes "\<forall>e \<in> set es. balanced e" and "braceFree sep"
  shows "balanced (join sep es)"
  using assms
proof (induction sep es rule: join.induct)
  case (1 sep)
  then show ?case by (simp add: balanced_def openBraces_def closeBraces_def)
next
  case (2 sep x)
  then show ?case by simp
next
  case (3 sep x y ys)
  then show ?case
    by (simp add: balanced_def braceFree_def openBraces_append closeBraces_append)
qed

lemma balanced_renderSelection:
  assumes "\<forall>e \<in> set es. balanced e"
  shows "balanced (renderSelection depth es)"
proof (cases "es = []")
  case True
  then show ?thesis
    by (simp add: renderSelection_def balanced_def openBraces_def closeBraces_def)
next
  case False
  have sep: "braceFree (newline @ repeat ''  '' (depth + 1))"
    unfolding braceFree_def openBraces_append closeBraces_append
    using openBraces_repeat_indent[of "depth + 1"] closeBraces_repeat_indent[of "depth + 1"]
    by (simp add: newline_def openBraces_def closeBraces_def)
  have j: "openBraces (join (newline @ repeat ''  '' (depth + 1)) es)
             = closeBraces (join (newline @ repeat ''  '' (depth + 1)) es)"
    using balanced_join[OF assms sep] by (simp add: balanced_def)
  have nl: "openBraces newline = 0" "closeBraces newline = 0"
    by (simp_all add: newline_def openBraces_def closeBraces_def)
  have o: "openBraces (''{'' @ newline @ repeat ''  '' (depth + 1)
             @ join (newline @ repeat ''  '' (depth + 1)) es
             @ newline @ repeat ''  '' depth @ ''}'')
           = 1 + openBraces (join (newline @ repeat ''  '' (depth + 1)) es)"
    unfolding openBraces_append nl openBraces_repeat_indent
    by (simp add: openBraces_def)
  have c: "closeBraces (''{'' @ newline @ repeat ''  '' (depth + 1)
             @ join (newline @ repeat ''  '' (depth + 1)) es
             @ newline @ repeat ''  '' depth @ ''}'')
           = closeBraces (join (newline @ repeat ''  '' (depth + 1)) es) + 1"
    unfolding closeBraces_append nl closeBraces_repeat_indent
    by (simp add: closeBraces_def)
  show ?thesis
    unfolding renderSelection_def balanced_def
    using False j o c by simp
qed

lemma balanced_entry:
  assumes "braceFree fieldName" and "balanced sel"
  shows "balanced (fieldName @ '' '' @ sel)"
  using assms
  by (simp add: balanced_def braceFree_def openBraces_def closeBraces_def)

lemma balanced_typename_entry:
  assumes "braceFree fieldName"
  shows "balanced (fieldName @ '' { __typename }'')"
  using assms
  by (simp add: balanced_def braceFree_def openBraces_def closeBraces_def)

lemma getMinimalFieldSelection_balanced:
  assumes "cachesBalanced st"
  shows "balanced (fst (getMinimalFieldSelection S n st))
       \<and> cachesBalanced (snd (getMinimalFieldSelection S n st))"
  using assms
  by (auto simp: getMinimalFieldSelection_def cachesBalanced_def Let_def balanced_def
      openBraces_def closeBraces_def split: option.splits)

lemma getFields_braceFree:
  assumes "fieldNamesBraceFree S"
  shows "\<forall>f \<in> set (getFields S n). braceFree (fst f)"
proof (cases "lookupType S n")
  case None
  then show ?thesis by (simp add: getFields_def)
next
  case (Some d)
  then have "(n, d) \<in> set (typeMap S)"
    unfolding lookupType_def by (rule map_of_SomeD)
  with assms have "list_all (\<lambda>f. braceFree (fst f)) (declaredFields d)"
    by (auto simp: fieldNamesBraceFree_def list_all_iff)
  with Some show ?thesis
    by (cases d) (auto simp: getFields_def list_all_iff)
qed

lemma cachesBalanced_update:
  assumes "cachesBalanced st" and "balanced s"
  shows "cachesBalanced (st\<lparr>typeFieldSelectionCache := (typeFieldSelectionCache st)(n \<mapsto> s)\<rparr>)"
  using assms by (simp add: cachesBalanced_def)

lemma generate_balanced:
  "fieldNamesBraceFree S \<Longrightarrow> cachesBalanced st \<Longrightarrow>
     balanced (fst (generateFullFieldSelection S typeName depth st))
     \<and> cachesBalanced (snd (generateFullFieldSelection S typeName depth st))"
  "fieldNamesBraceFree S \<Longrightarrow> cachesBalanced sl \<Longrightarrow> (\<forall>e \<in> set acc. balanced e)
     \<Longrightarrow> (\<forall>f \<in> set fs. braceFree (fst f)) \<Longrightarrow>
     (\<forall>e \<in> set (fst (generateFullFieldSelection_loop S tn dl fs acc sl)). balanced e)
     \<and> cachesBalanced (snd (generateFullFieldSelection_loop S tn dl fs acc sl))"
proof (induction S typeName depth st and S tn dl fs acc sl
    rule: generateFullFieldSelection_generateFullFieldSelection_loop.induct)
  case (1 S typeName depth st)
  show ?case
  proof (cases "typeFieldSelectionCache st typeName")
    case (Some s)
    with 1(3) show ?thesis
      by (simp add: generateFullFieldSelection.simps[of S typeName depth st] cachesBalanced_def)
  next
    case None
    show ?thesis
    proof (cases "3 < depth")
      case True
      obtain m st1 where g: "getMinimalFieldSelection S typeName st = (m, st1)"
        by (cases "getMinimalFieldSelection S typeName st")
      with getMinimalFieldSelection_balanced[OF 1(3), of S typeName]
      have "balanced m" "cachesBalanced st1" by simp_all
      then show ?thesis
        using None True g
        by (simp add: generateFullFieldSelection.simps[of S typeName depth st] cachesBalanced_update)
    next
      case False
      obtain es st1 where l: "generateFullFieldSelection_loop S typeName depth (getFields S typeName) [] st = (es, st1)"
        by (cases "generateFullFieldSelection_loop S typeName depth (getFields S typeName) [] st")
      from 1(1)[OF None False 1(2) 1(3) _ getFields_braceFree[OF 1(2)]] l
      have "\<forall>e \<in> set es. balanced e" "cachesBalanced st1" by simp_all
      then show ?thesis
        using None False l
        by (simp add: generateFullFieldSelection.simps[of S typeName depth st]
            cachesBalanced_update balanced_renderSelection Let_def)
    qed
  qed
next
  case (2 S typeName depth fieldSelections st)
  then show ?case by simp
next
  case (3 S typeName depth fieldName field rest fieldSelections st)
  let ?x = "underlyingType (fieldType field)"
  from 3(9) have bf: "braceFree fieldName" and rest: "\<forall>f \<in> set rest. braceFree (fst f)"
    by simp_all
  show ?case
  proof (cases "isObjectType S ?x \<or> isInterfaceType S ?x")
    case comp: True
    show ?thesis
    proof (cases "nameOf ?x = typeName")
      case True
      obtain m st1 where g: "getMinimalFieldSelection S (nameOf ?x) st = (m, st1)"
        by (cases "getMinimalFieldSelection S (nameOf ?x) st")
      with getMinimalFieldSelection_balanced[OF 3(7), of S "nameOf ?x"]
      have m: "balanced m" "cachesBalanced st1" by simp_all
      have acc: "\<forall>e \<in> set (if m \<noteq> [] then fieldSelections @ [fieldName @ '' '' @ m] else fieldSelections). balanced e"
        using 3(8) balanced_entry[OF bf m(1)] by simp
      from 3(1)[OF refl comp True refl g[symmetric] 3(6) m(2) acc rest]
      show ?thesis using comp True g by (simp add: Let_def)
    next
      case False
      obtain n st1 where g: "generateFullFieldSelection S (nameOf ?x) (depth + 1) st = (n, st1)"
        by (cases "generateFullFieldSelection S (nameOf ?x) (depth + 1) st")
      from 3(2)[OF refl comp False 3(6) 3(7)] g
      have n: "balanced n" "cachesBalanced st1" by simp_all
      have acc: "\<forall>e \<in> set (fieldSelections @ [if n \<noteq> [] then fieldName @ '' '' @ n else fieldName]). balanced e"
        using 3(8) balanced_entry[OF bf n(1)] braceFree_balanced[OF bf] by simp
      from 3(3)[OF refl comp False refl g[symmetric] 3(6) n(2) acc rest]
      show ?thesis using comp False g by (simp add: Let_def)
    qed
  next
    case nocomp: False
    show ?thesis
    proof (cases "isUnionType S ?x")
      case True
      have acc: "\<forall>e \<in> set (fieldSelections @ [fieldName @ '' { __typename }'']). balanced e"
        using 3(8) balanced_typename_entry[OF bf] by simp
      from 3(4)[OF refl nocomp True 3(6) 3(7) acc rest]
      show ?thesis using nocomp True by (simp add: Let_def)
    next
      case False
      have acc: "\<forall>e \<in> set (fieldSelections @ [fieldName]). balanced e"
        using 3(8) braceFree_balanced[OF bf] by simp
      from 3(5)[OF refl nocomp False 3(6) 3(7) acc rest]
      show ?thesis using nocomp False by (simp add: Let_def)
    qed
  qed
qed


lemma generateFieldSelection_balanced:
  assumes "fieldNamesBraceFree S" and "cachesBalanced st"
  shows "balanced (fst (generateFieldSelection S t visited depth st))
       \<and> cachesBalanced (snd (generateFieldSelection S t visited depth st))"
proof -
  let ?a = "underlyingType t"
  have e: "balanced []" "balanced ''{ __typename }''"
    by (simp_all add: balanced_def openBraces_def closeBraces_def)
  show ?thesis
  proof (cases "typeFieldSelectionCache st (nameOf ?a)")
    case None
    then show ?thesis
      using assms e getMinimalFieldSelection_balanced[OF assms(2), of S "nameOf ?a"]
        generate_balanced(1)[OF assms, of "nameOf ?a" depth]
      by (simp add: generateFieldSelection_def Let_def)
  next
    case (Some s)
    with assms(2) have "balanced s" by (simp add: cachesBalanced_def)
    with Some show ?thesis
      using assms e getMinimalFieldSelection_balanced[OF assms(2), of S "nameOf ?a"]
      by (simp add: generateFieldSelection_def Let_def)
  qed
qed

lemma generateToolForField_balanced:
  assumes "fieldNamesBraceFree S" and "cachesBalanced st"
  shows "toolBalanced (fst (generateToolForField S fieldName field opType st))
       \<and> cachesBalanced (snd (generateToolForField S fieldName field opType st))"
  using generateFieldSelection_balanced[OF assms, of "fieldType field" "{}" 0]
  by (auto simp add: generateToolForField_def toolBalanced_def split: prod.splits)

lemma generateTools_balanced:
  assumes "fieldNamesBraceFree S"
  shows "cachesBalanced st \<Longrightarrow> \<forall>tool \<in> set tools. toolBalanced tool \<Longrightarrow>
         (\<forall>tool \<in> set (fst (generateTools S opType fs tools st)). toolBalanced tool)
         \<and> cachesBalanced (snd (generateTools S opType fs tools st))"
proof (induction fs arbitrary: tools st)
  case Nil
  then show ?case by simp
next
  case (Cons a fs)
  obtain fieldName field where a: "a = (fieldName, field)" by (cases a)
  obtain tool st1 where g: "generateToolForField S fieldName field opType st = (tool, st1)"
    by (cases "generateToolForField S fieldName field opType st")
  from generateToolForField_balanced[OF assms Cons.prems(1), of fieldName field opType] g
  have t: "toolBalanced tool" "cachesBalanced st1" by simp_all
  with Cons.prems(2) have "\<forall>x \<in> set (tools @ [tool]). toolBalanced x" by simp
  from Cons.IH[OF t(2) this] show ?case using a g by simp
qed

lemma prewarm_balanced:
  assumes "fieldNamesBraceFree S"
  shows "cachesBalanced st \<Longrightarrow> cachesBalanced (prewarm S entries st)"
proof (induction entries arbitrary: st)
  case Nil
  then show ?case by simp
next
  case (Cons a entries)
  obtain typeName type where a: "a = (typeName, type)" by (cases a)
  from generate_balanced(1)[OF assms Cons.prems, of typeName 0]
  have "cachesBalanced (snd (generateFullFieldSelection S typeName 0 st))" by simp
  from Cons.IH[OF this] Cons.IH[OF Cons.prems] show ?case using a by simp
qed

lemma cachesBalanced_clear: "cachesBalanced (clearFieldSelectionCaches st)"
  by (simp add: cachesBalanced_def clearFieldSelectionCaches_def)

lemma build_balanced:
  assumes "fieldNamesBraceFree S"
  shows "(\<forall>tool \<in> set (fst (generateMCPToolsFromSchema S st)). toolBalanced tool)
         \<and> cachesBalanced (snd (generateMCPToolsFromSchema S st))"
proof -
  define st1 where "st1 = prewarm S (typeMap S) (clearFieldSelectionCaches st)"
  define r1 where "r1 =
    (case queryType S of
       Some q \<Rightarrow> generateTools S Query (getFields S q) [] st1
     | None \<Rightarrow> ([], st1))"
  define r2 where "r2 =
    (case mutationType S of
       Some m \<Rightarrow> generateTools S Mutation (getFields S m) (fst r1) (snd r1)
     | None \<Rightarrow> (fst r1, snd r1))"
  have res: "generateMCPToolsFromSchema S st = r2"
    unfolding generateMCPToolsFromSchema_def r2_def r1_def st1_def
    by (simp add: Let_def split: prod.splits option.splits)
  have b1: "cachesBalanced st1"
    unfolding st1_def by (rule prewarm_balanced[OF assms cachesBalanced_clear])
  have b2: "(\<forall>tool \<in> set (fst r1). toolBalanced tool) \<and> cachesBalanced (snd r1)"
    unfolding r1_def using b1 generateTools_balanced[OF assms b1, of "[]"]
    by (cases "queryType S") simp_all
  have b3: "(\<forall>tool \<in> set (fst r2). toolBalanced tool) \<and> cachesBalanced (snd r2)"
    unfolding r2_def using b2 generateTools_balanced[OF assms, of "snd r1" "fst r1"]
    by (cases "mutationType S") simp_all
  show ?thesis using res b3 by simp
qed

lemma dom_total: "generateFullFieldSelection_generateFullFieldSelection_loop_dom x"
proof -
  have "All generateFullFieldSelection_generateFullFieldSelection_loop_dom"
    by (relation "measures
        [\<lambda>x. case x of
                Inl (S, t, d, st) \<Rightarrow> (if d > 3 then 0 else 2 * (4 - d) + 2)
              | Inr (S, t, d, fs, acc, st) \<Rightarrow> 2 * (4 - d) + 1,
         \<lambda>x. case x of
                Inl (S, t, d, st) \<Rightarrow> 0
              | Inr (S, t, d, fs, acc, st) \<Rightarrow> length fs]") auto
  then show ?thesis by simp
qed

text \<open>
  C5. Selection generation terminates on every type graph: the recursion of
  \<open>generateFullFieldSelection\<close> and of its field loop is well-founded (its termination
  proof uses a measure that depends only on the depth and on the number of fields left),
  which is what membership of every call in the domain predicate says; past depth 3 an
  uncached type gets its minimal selection instead of being unfolded. Every selection
  generated from caches that hold balanced strings is balanced and leaves the caches so; in
  particular the field selection of every descriptor and every cached string of a build
  have as many opening as closing braces.
\<close>

theorem generation_terminates_balanced:
  assumes "fieldNamesBraceFree S"
  shows "generateFullFieldSelection_generateFullFieldSelection_loop_dom
           (Inl (S, typeName, depth, st))
       \<and> (typeFieldSelectionCache st typeName = None \<longrightarrow> 3 < depth \<longrightarrow>
            fst (generateFullFieldSelection S typeName depth st)
              = fst (getMinimalFieldSelection S typeName st))
       \<and> (cachesBalanced st \<longrightarrow>
            balanced (fst (generateFullFieldSelection S typeName depth st))
            \<and> cachesBalanced (snd (generateFullFieldSelection S typeName depth st)))
       \<and> (\<forall>tool \<in> set (fst (generateMCPToolsFromSchema S st)). toolBalanced tool)
       \<and> cachesBalanced (snd (generateMCPToolsFromSchema S st))"
proof -
  have ceiling: "typeFieldSelectionCache st typeName = None \<longrightarrow> 3 < depth \<longrightarrow>
            fst (generateFullFieldSelection S typeName depth st)
              = fst (getMinimalFieldSelection S typeName st)"
    by (simp add: generateFullFieldSelection.simps[of S typeName depth st] split: prod.splits)
  show ?thesis
    using dom_total[of "Inl (S, typeName, depth, st)"] ceiling
      generate_balanced(1)[OF assms, of st typeName depth] build_balanced[OF assms, of st]
    by blast
qed

theorem generation_terminates_balanced_witness:
  "fieldNamesBraceFree blogSchema
   \<and> generateFullFieldSelection_generateFullFieldSelection_loop_dom
       (Inl (blogSchema, ''User'', 0, emptyCaches))
   \<and> fst (generateFullFieldSelection blogSchema ''User'' 4 emptyCaches) = ''{ id }''
   \<and> balanced (fst (generateFullFieldSelection blogSchema ''User'' 0 emptyCaches))
   \<and> list_all toolBalanced blogTools
   \<and> cachesBalanced (snd (generateMCPToolsFromSchema blogSchema emptyCaches))"
proof -
  have h: "fieldNamesBraceFree blogSchema" by code_simp
  have c: "typeFieldSelectionCache emptyCaches ''User'' = None" "(3::nat) < 4"
    by (simp_all add: emptyCaches_def)
  have b: "cachesBalanced emptyCaches"
    by (simp add: cachesBalanced_def emptyCaches_def)
  have m: "fst (getMinimalFieldSelection blogSchema ''User'' emptyCaches) = ''{ id }''"
    by code_simp
  show ?thesis
    using generation_terminates_balanced[OF h, of "''User''" 0 emptyCaches]
      generation_terminates_balanced[OF h, of "''User''" 4 emptyCaches] h c b m
    by (simp add: blogTools_def list_all_iff)
qed

section \<open>Required names in the parameter schema\<close>

lemma generateToolForField_args_required:
  "snd (generateToolForField_args S args properties required) =
     required @ map argName
       (filter (\<lambda>arg. isNonNullType (argType arg) \<and> argDefaultValue arg = None) args)"
  by (induction args arbitrary: properties required) (simp_all add: Let_def)

lemma getJSONSchemaType_loop_required:
  "snd (getJSONSchemaType_loop S fs visited properties required) =
     required @ map fst (filter (\<lambda>f. isNonNullType (inputType (snd f))) fs)"
  by (induction fs arbitrary: properties required) (auto simp add: Let_def)

text \<open>
  C4. For operation arguments the required names are those whose type is non-null and that
  declare no default (\<open>generateToolForField_args_required\<close>). For the fields of an input
  object the loop looks at the type only (\<open>getJSONSchemaType_loop_required\<close>): in the
  schema below the input field \<open>role: UserRole! = USER\<close> declares a default and is put in
  the required list of the \<open>input\<close> property all the same, while the argument
  \<open>limit: Int! = 10\<close> is left out of the operation's required list.
\<close>

theorem nested_default_ignored:
  "map toolName accountTools = [''query_users'', ''mutation_createUser'']
   \<and> map (\<lambda>tool. schemaRequired (toolInputSchema tool)) accountTools
       = [Some [''role''], Some [''input'']]
   \<and> map_of (getInputFields accountSchema ''CreateUserInput'') ''role''
       = Some \<lparr>inputType = NonNullT (Named ''UserRole''), inputDescription = None,
               inputDefaultValue = Some ''USER''\<rparr>
   \<and> map (\<lambda>tool. map (\<lambda>p. jsRequired (snd p)) (schemaProperties (toolInputSchema tool)))
         accountTools
       = [[None, None], [Some [''name'', ''role'']]]"
  by code_simp

section \<open>Mutual cycles\<close>

text \<open>
  C1. \<open>generateFullFieldSelection\<close> compares a field's type with the type being generated
  and nothing else: it keeps no set of the types in progress, and the visited set of
  \<open>generateFieldSelection\<close> is always empty when it is consulted. A cycle through two types
  is therefore unfolded until the depth ceiling. In the schema with \<open>User.posts: [Post]\<close>
  and \<open>Post.author: User\<close>, the cached selection of \<open>Post\<close> after a build carries, under
  \<open>author\<close>, a selection of \<open>User\<close> that again selects \<open>posts\<close>, not the minimal
  \<open>{ id }\<close>; this is so whether the type map lists \<open>Query\<close> or \<open>User\<close> first.
\<close>

theorem mutual_cycle_not_minimal:
  "(let st = snd (generateMCPToolsFromSchema blogSchema emptyCaches) in
      typeFieldSelectionCache st ''Post''
        = Some (renderSelection 2
                  [''id'', ''author '' @ renderSelection 3 [''id'', ''posts { id }'']])
      \<and> typeFieldSelectionCache st ''User''
        = Some (renderSelection 1
                  [''id'',
                   ''posts '' @ renderSelection 2
                      [''id'', ''author '' @ renderSelection 3 [''id'', ''posts { id }'']]])
      \<and> minimalFieldSelectionCache st ''User'' = None)
   \<and> (let st = snd (generateMCPToolsFromSchema blogSchemaUserFirst emptyCaches) in
      typeFieldSelectionCache st ''Post''
        = Some (renderSelection 1
                  [''id'',
                   ''author '' @ renderSelection 2
                      [''id'', ''posts '' @ renderSelection 3 [''id'', ''author { id }'']]])
      \<and> minimalFieldSelectionCache st ''User'' = Some ''{ id }'')
   \<and> renderSelection 3 [''id'', ''posts { id }''] \<noteq> ''{ id }''"
  by code_simp

text \<open>
  C3, as stated, fails. In the same cycle a cache entry is written more than once during one
  build. The first top-level call of the build generates \<open>User\<close> at depth 0 from cleared
  caches. When its field loop has finished, the cache already holds an entry for \<open>User\<close>,
  written by the nested generation of \<open>User\<close> at depth 2 (which itself replaced the
  minimal entry written at depth 4); storing the result of the outer call then replaces that
  entry by a different string.
\<close>

theorem cache_entry_overwritten:
  "(let st0 = clearFieldSelectionCaches emptyCaches;
        inner = snd (generateFullFieldSelection_loop blogSchemaUserFirst ''User'' 0
                  (getFields blogSchemaUserFirst ''User'') [] st0);
        outer = snd (generateFullFieldSelection blogSchemaUserFirst ''User'' 0 st0)
    in typeFieldSelectionCache st0 ''User'' = None
     \<and> typeFieldSelectionCache inner ''User''
         = Some (renderSelection 2
                   [''id'', ''posts '' @ renderSelection 3 [''id'', ''author { id }'']])
     \<and> typeFieldSelectionCache outer ''User''
         = Some (renderSelection 0
                   [''id'',
                    ''posts '' @ renderSelection 1
                      [''id'',
                       ''author '' @ renderSelection 2
                         [''id'', ''posts '' @ renderSelection 3 [''id'', ''author { id }'']]]])
     \<and> typeFieldSelectionCache outer ''User'' \<noteq> typeFieldSelectionCache inner ''User''
     \<and> typeFieldSelectionCache
          (snd (generateFullFieldSelection blogSchemaUserFirst ''User'' 4 st0)) ''User''
         = Some ''{ id }'')"
  by code_simp


lemma keepsEntries_refl: "keepsEntries st st"
  by (simp add: keepsEntries_def)

lemma keepsEntries_trans: "keepsEntries a b \<Longrightarrow> keepsEntries b c \<Longrightarrow> keepsEntries a c"
  by (simp add: keepsEntries_def)

lemma getMinimalFieldSelection_keeps:
  "keepsEntries st (snd (getMinimalFieldSelection S n st))"
  by (auto simp: getMinimalFieldSelection_def keepsEntries_def Let_def split: option.splits)

lemma keepsEntries_store:
  assumes "keepsEntries st st1" and "typeFieldSelectionCache st n = None"
  shows "keepsEntries st (st1\<lparr>typeFieldSelectionCache := (typeFieldSelectionCache st1)(n \<mapsto> s)\<rparr>)"
  using assms by (auto simp: keepsEntries_def)

lemma generate_keeps:
  "keepsEntries st (snd (generateFullFieldSelection S typeName depth st))"
  "keepsEntries sl (snd (generateFullFieldSelection_loop S tn dl fs acc sl))"
proof (induction S typeName depth st and S tn dl fs acc sl
    rule: generateFullFieldSelection_generateFullFieldSelection_loop.induct)
  case (1 S typeName depth st)
  show ?case
  proof (cases "typeFieldSelectionCache st typeName")
    case (Some s)
    then show ?thesis
      by (simp add: generateFullFieldSelection.simps[of S typeName depth st] keepsEntries_refl)
  next
    case None
    show ?thesis
    proof (cases "3 < depth")
      case True
      obtain m st1 where g: "getMinimalFieldSelection S typeName st = (m, st1)"
        by (cases "getMinimalFieldSelection S typeName st")
      with getMinimalFieldSelection_keeps[of st S typeName] have "keepsEntries st st1" by simp
      from keepsEntries_store[OF this None] show ?thesis
        using None True g
        by (simp add: generateFullFieldSelection.simps[of S typeName depth st])
    next
      case False
      obtain es st1 where l:
        "generateFullFieldSelection_loop S typeName depth (getFields S typeName) [] st = (es, st1)"
        by (cases "generateFullFieldSelection_loop S typeName depth (getFields S typeName) [] st")
      with 1[OF None False] have "keepsEntries st st1" by simp
      from keepsEntries_store[OF this None] show ?thesis
        using None False l
        by (simp add: generateFullFieldSelection.simps[of S typeName depth st] Let_def)
    qed
  qed
next
  case (2 S typeName depth fieldSelections st)
  then show ?case by (simp add: keepsEntries_refl)
next
  case (3 S typeName depth fieldName field rest fieldSelections st)
  let ?x = "underlyingType (fieldType field)"
  show ?case
  proof (cases "isObjectType S ?x \<or> isInterfaceType S ?x")
    case comp: True
    show ?thesis
    proof (cases "nameOf ?x = typeName")
      case True
      obtain m st1 where g: "getMinimalFieldSelection S (nameOf ?x) st = (m, st1)"
        by (cases "getMinimalFieldSelection S (nameOf ?x) st")
      with getMinimalFieldSelection_keeps[of st S "nameOf ?x"] have k: "keepsEntries st st1"
        by simp
      from keepsEntries_trans[OF k 3(1)[OF refl comp True refl g[symmetric]]]
      show ?thesis using comp True g by (simp add: Let_def)
    next
      case False
      obtain s st1 where g: "generateFullFieldSelection S (nameOf ?x) (depth + 1) st = (s, st1)"
        by (cases "generateFullFieldSelection S (nameOf ?x) (depth + 1) st")
      with 3(2)[OF refl comp False] have k: "keepsEntries st st1" by simp
      from keepsEntries_trans[OF k 3(3)[OF refl comp False refl g[symmetric]]]
      show ?thesis using comp False g by (simp add: Let_def)
    qed
  next
    case nocomp: False
    show ?thesis
    proof (cases "isUnionType S ?x")
      case True
      from 3(4)[OF refl nocomp True]
      show ?thesis using nocomp True by (simp add: Let_def)
    next
      case False
      from 3(5)[OF refl nocomp False]
      show ?thesis using nocomp False by (simp add: Let_def)
    qed
  qed
qed

lemma generateFieldSelection_keeps:
  "keepsEntries st (snd (generateFieldSelection S t visited depth st))"
  using getMinimalFieldSelection_keeps[of st S "nameOf (underlyingType t)"]
    generate_keeps(1)[of st S "nameOf (underlyingType t)" depth]
  by (simp add: generateFieldSelection_def Let_def keepsEntries_refl split: option.splits)

lemma generateToolForField_keeps:
  "keepsEntries st (snd (generateToolForField S fieldName field opType st))"
  using generateFieldSelection_keeps[of st S "fieldType field" "{}" 0]
  by (auto simp add: generateToolForField_def split: prod.splits)

lemma generateTools_keeps:
  "keepsEntries st (snd (generateTools S opType fs tools st))"
proof (induction fs arbitrary: tools st)
  case Nil
  then show ?case by (simp add: keepsEntries_refl)
next
  case (Cons a fs)
  obtain fieldName field where a: "a = (fieldName, field)" by (cases a)
  obtain tool st1 where g: "generateToolForField S fieldName field opType st = (tool, st1)"
    by (cases "generateToolForField S fieldName field opType st")
  with generateToolForField_keeps[of st S fieldName field opType] have "keepsEntries st st1"
    by simp
  from keepsEntries_trans[OF this Cons.IH[of st1 "tools @ [tool]"]]
  show ?case using a g by simp
qed

lemma prewarm_keeps: "keepsEntries st (prewarm S entries st)"
proof (induction entries arbitrary: st)
  case Nil
  then show ?case by (simp add: keepsEntries_refl)
next
  case (Cons a entries)
  obtain typeName type where a: "a = (typeName, type)" by (cases a)
  from keepsEntries_trans[OF generate_keeps(1)[of st S typeName 0]
      Cons.IH[of "snd (generateFullFieldSelection S typeName 0 st)"]] Cons.IH[of st]
  show ?case using a by simp
qed

text \<open>
  C3, amended. A complete call of any operation of the synthesizer (the minimal selection,
  the full selection at any depth, the selection for a type reference, the construction of a
  descriptor, the pre-generation loop, the loop over root fields) that starts when an entry
  is present in the full or in the minimal cache returns with that entry unchanged. A lookup
  of a cached type returns the cached string and leaves the state as it is. Only clearing
  removes entries. Nothing is said about an entry written while its type is still being
  generated by an enclosing call.
\<close>

theorem finished_entries_kept:
  "keepsEntries st (snd (getMinimalFieldSelection S typeName st))
   \<and> keepsEntries st (snd (generateFullFieldSelection S typeName depth st))
   \<and> keepsEntries st (snd (generateFieldSelection S t visited depth st))
   \<and> keepsEntries st (snd (generateToolForField S fieldName field opType st))
   \<and> keepsEntries st (prewarm S entries st)
   \<and> keepsEntries st (snd (generateTools S opType fs tools st))
   \<and> (typeFieldSelectionCache st typeName = Some v \<longrightarrow>
        generateFullFieldSelection S typeName depth st = (v, st))
   \<and> (minimalFieldSelectionCache st typeName = Some v \<longrightarrow>
        getMinimalFieldSelection S typeName st = (v, st))
   \<and> (isObjectType S (underlyingType t) \<or> isInterfaceType S (underlyingType t) \<longrightarrow>
        typeFieldSelectionCache st (nameOf (underlyingType t)) = Some v \<longrightarrow>
        generateFieldSelection S t {} depth st = (v, st))
   \<and> typeFieldSelectionCache (clearFieldSelectionCaches st) = Map.empty
   \<and> minimalFieldSelectionCache (clearFieldSelectionCaches st) = Map.empty"
proof -
  have hit1: "typeFieldSelectionCache st typeName = Some v \<longrightarrow>
        generateFullFieldSelection S typeName depth st = (v, st)"
    by (simp add: generateFullFieldSelection.simps[of S typeName depth st])
  have hit2: "minimalFieldSelectionCache st typeName = Some v \<longrightarrow>
        getMinimalFieldSelection S typeName st = (v, st)"
    by (simp add: getMinimalFieldSelection_def)
  have ns: "isObjectType S (underlyingType t) \<or> isInterfaceType S (underlyingType t)
       \<Longrightarrow> \<not> isScalarType S (underlyingType t) \<and> \<not> isEnumType S (underlyingType t)"
    by (cases "underlyingType t"; auto split: option.splits gnamed.splits)
  have hit3: "isObjectType S (underlyingType t) \<or> isInterfaceType S (underlyingType t) \<longrightarrow>
        typeFieldSelectionCache st (nameOf (underlyingType t)) = Some v \<longrightarrow>
        generateFieldSelection S t {} depth st = (v, st)"
    using ns by (auto simp add: generateFieldSelection_def Let_def)
  show ?thesis
    using getMinimalFieldSelection_keeps[of st S typeName]
      generate_keeps(1)[of st S typeName depth]
      generateFieldSelection_keeps[of st S t visited depth]
      generateToolForField_keeps[of st S fieldName field opType]
      prewarm_keeps[of st S entries]
      generateTools_keeps[of st S opType fs tools]
      hit1 hit2 hit3
    by (simp add: clearFieldSelectionCaches_def)
qed

theorem finished_entries_kept_witness:
  "typeFieldSelectionCache userCutCaches ''User'' = Some ''{ id }''
   \<and> fst (generateFullFieldSelection blogSchema ''Post'' 0 userCutCaches)
       = renderSelection 0 [''id'', ''author { id }'']
   \<and> typeFieldSelectionCache
        (snd (generateFullFieldSelection blogSchema ''Post'' 0 userCutCaches)) ''User''
       = Some ''{ id }''
   \<and> generateFullFieldSelection blogSchema ''User'' 0 userCutCaches = (''{ id }'', userCutCaches)"
proof -
  have h: "typeFieldSelectionCache userCutCaches ''User'' = Some ''{ id }''" by code_simp
  have r: "fst (generateFullFieldSelection blogSchema ''Post'' 0 userCutCaches)
       = renderSelection 0 [''id'', ''author { id }'']" by code_simp
  show ?thesis
    using finished_entries_kept[where st = userCutCaches and S = blogSchema
        and typeName = "''Post''" and depth = 0 and v = "''{ id }''"]
      finished_entries_kept[where st = userCutCaches and S = blogSchema
        and typeName = "''User''" and depth = 0 and v = "''{ id }''"] h r
    by (simp add: keepsEntries_def)
qed


section \<open>Composite fields and their sub-selections\<close>

text \<open>
  C2. The claim is that no field of object or interface type is ever emitted without a
  sub-selection. The code does emit one in the chain schema. \<open>Member\<close> has two scalar
  fields, but it is first reached at depth 4, where the generator takes its minimal
  selection instead of its fields; \<open>Member\<close> has no \<open>id\<close> or \<open>documentId\<close>, so that is
  the empty string, and the empty string is stored as the full selection of \<open>Member\<close>
  (generated on its own, \<open>Member\<close> selects \<open>name\<close> and \<open>email\<close>). The field
  \<open>lead: Member\<close> of \<open>Team\<close> then falls into the branch that pushes the bare field name.
  After the build the cached selection of \<open>Team\<close>, and with it the field selection of the
  descriptor \<open>query_company\<close>, contains the object-typed field \<open>lead\<close> with no
  sub-selection, and the cache keeps the empty string for \<open>Member\<close>.
\<close>

theorem bare_composite_field:
  "(let st = snd (generateMCPToolsFromSchema teamSchema emptyCaches) in
      typeFieldSelectionCache st ''Team'' = Some (renderSelection 3 [''name'', ''lead''])
      \<and> typeFieldSelectionCache st ''Member'' = Some [])
   \<and> map_of (getFields teamSchema ''Team'') ''lead'' = Some (mkfield (Named ''Member''))
   \<and> isObjectType teamSchema (underlyingType (Named ''Member''))
   \<and> map fst (getFields teamSchema ''Member'') = [''name'', ''email'']
   \<and> fst (generateFullFieldSelection teamSchema ''Member'' 0 emptyCaches)
       = renderSelection 0 [''name'', ''email'']
   \<and> map (\<lambda>tool. (toolName tool, map_option gqlFieldSelection (toolGraphql tool)))
         (fst (generateMCPToolsFromSchema teamSchema emptyCaches))
       = [(''query_company'',
           Some (renderSelection 1
                  [''name'',
                   ''departments '' @ renderSelection 2
                      [''name'',
                       ''teams '' @ renderSelection 3 [''name'', ''lead'']]]))]"
  by code_simp

text \<open>
  The rest of this section gives a condition on the schema that excludes the situation
  above: when every object or interface type that a field unwraps to has a \<open>documentId\<close>
  or \<open>id\<close> field of leaf type, no nested selection is empty.
\<close>

lemma wfSelection_full:
  assumes "list_all2 (entryFor S) (getFields S n) es"
  shows "wfSelection S n (renderSelection depth es)"
proof (rule wfSelection.full)
  show "length (getFields S n) = length es"
    using assms by (rule list_all2_lengthD)
  show "\<forall>(f, e) \<in> set (zip (getFields S n) es).
           (composite S (fieldType (snd f)) \<longrightarrow>
              (\<exists>sel. sel \<noteq> [] \<and> e = fst f @ '' '' @ sel
                 \<and> wfSelection S (nameOf (underlyingType (fieldType (snd f)))) sel))
           \<and> (\<not> composite S (fieldType (snd f)) \<longrightarrow>
                 isUnionType S (underlyingType (fieldType (snd f))) \<longrightarrow>
                 e = fst f @ '' { __typename }'')
           \<and> (\<not> composite S (fieldType (snd f)) \<longrightarrow>
                 \<not> isUnionType S (underlyingType (fieldType (snd f))) \<longrightarrow> e = fst f)"
    using assms unfolding list_all2_iff entryFor_def by simp
qed

lemma getMinimalFieldSelection_unfold:
  "getMinimalFieldSelection S n st =
     (case minimalFieldSelectionCache st n of
        Some s \<Rightarrow> (s, st)
      | None \<Rightarrow>
          (minimalOf S n,
           st\<lparr>minimalFieldSelectionCache := (minimalFieldSelectionCache st)(n \<mapsto> minimalOf S n)\<rparr>))"
  by (simp add: getMinimalFieldSelection_def minimalOf_def emptyCaches_def Let_def
      split: option.splits)

lemma getMinimalFieldSelection_minimalOf:
  assumes "cachesWF S st"
  shows "fst (getMinimalFieldSelection S n st) = minimalOf S n
       \<and> cachesWF S (snd (getMinimalFieldSelection S n st))"
proof (cases "minimalFieldSelectionCache st n")
  case None
  then show ?thesis
    using assms by (simp add: getMinimalFieldSelection_unfold cachesWF_def)
next
  case (Some s)
  then show ?thesis
    using assms by (simp add: getMinimalFieldSelection_unfold cachesWF_def)
qed

lemma minimalOf_nonempty: "leafId S n \<Longrightarrow> minimalOf S n \<noteq> []"
  by (auto simp: leafId_def minimalOf_def getMinimalFieldSelection_def emptyCaches_def Let_def
      split: option.splits)

lemma leafId_fields_nonempty: "leafId S n \<Longrightarrow> getFields S n \<noteq> []"
  by (auto simp: leafId_def split: option.splits)

lemma renderSelection_nonempty: "es \<noteq> [] \<Longrightarrow> renderSelection depth es \<noteq> []"
  by (simp add: renderSelection_def)

lemma generatedType_lookup:
  assumes "generatedType S n"
  shows "\<exists>d. (n, d) \<in> set (typeMap S)"
proof -
  from assms obtain d where "lookupType S n = Some d"
    by (auto simp: generatedType_def split: option.splits)
  then have "(n, d) \<in> set (typeMap S)"
    unfolding lookupType_def by (rule map_of_SomeD)
  then show ?thesis ..
qed

lemma generated_fieldsSelectable:
  assumes "nestedTypesSelectable S" and "generatedType S n"
  shows "fieldsSelectable S n"
proof -
  from generatedType_lookup[OF assms(2)] obtain d where "(n, d) \<in> set (typeMap S)" ..
  with assms show ?thesis
    by (auto simp: nestedTypesSelectable_def list_all_iff)
qed

lemma composite_named:
  assumes "isObjectType S x \<or> isInterfaceType S x"
  shows "isObjectType S (Named (nameOf x)) \<or> isInterfaceType S (Named (nameOf x))"
  using assms by (cases x) simp_all

lemma cachesWF_update:
  assumes "cachesWF S st" and "wfSelection S n s" and "leafId S n \<longrightarrow> s \<noteq> []"
  shows "cachesWF S (st\<lparr>typeFieldSelectionCache := (typeFieldSelectionCache st)(n \<mapsto> s)\<rparr>)"
  using assms by (simp add: cachesWF_def)

lemma generate_wf:
  "nestedTypesSelectable S \<Longrightarrow> generatedType S typeName \<Longrightarrow> (0 < depth \<longrightarrow> leafId S typeName)
     \<Longrightarrow> cachesWF S st \<Longrightarrow>
     wfSelection S typeName (fst (generateFullFieldSelection S typeName depth st))
     \<and> (leafId S typeName \<longrightarrow> fst (generateFullFieldSelection S typeName depth st) \<noteq> [])
     \<and> cachesWF S (snd (generateFullFieldSelection S typeName depth st))"
  "nestedTypesSelectable S \<Longrightarrow> cachesWF S sl \<Longrightarrow> list_all (fieldSelectable S) fs \<Longrightarrow>
     (\<forall>done. list_all2 (entryFor S) done acc \<longrightarrow>
        list_all2 (entryFor S) (done @ fs)
          (fst (generateFullFieldSelection_loop S tn dl fs acc sl)))
     \<and> cachesWF S (snd (generateFullFieldSelection_loop S tn dl fs acc sl))"
proof (induction S typeName depth st and S tn dl fs acc sl
    rule: generateFullFieldSelection_generateFullFieldSelection_loop.induct)
  case (1 S typeName depth st)
  show ?case
  proof (cases "typeFieldSelectionCache st typeName")
    case (Some s)
    with 1(5) show ?thesis
      by (simp add: generateFullFieldSelection.simps[of S typeName depth st] cachesWF_def)
  next
    case None
    show ?thesis
    proof (cases "3 < depth")
      case True
      with 1(4) have leaf: "leafId S typeName" by simp
      obtain m st1 where g: "getMinimalFieldSelection S typeName st = (m, st1)"
        by (cases "getMinimalFieldSelection S typeName st")
      with getMinimalFieldSelection_minimalOf[OF 1(5), of typeName]
      have m: "m = minimalOf S typeName" "cachesWF S st1" by simp_all
      have w: "wfSelection S typeName m" "m \<noteq> []"
        using m(1) leaf wfSelection.minimal[OF leaf] minimalOf_nonempty[OF leaf] by simp_all
      show ?thesis
        using None True g w cachesWF_update[OF m(2) w(1)]
        by (simp add: generateFullFieldSelection.simps[of S typeName depth st])
    next
      case False
      obtain es st1 where l:
        "generateFullFieldSelection_loop S typeName depth (getFields S typeName) [] st = (es, st1)"
        by (cases "generateFullFieldSelection_loop S typeName depth (getFields S typeName) [] st")
      have fsel: "list_all (fieldSelectable S) (getFields S typeName)"
        using generated_fieldsSelectable[OF 1(2) 1(3)] by (simp add: fieldsSelectable_def)
      from 1(1)[OF None False 1(2) 1(5) fsel] l
      have r: "list_all2 (entryFor S) (getFields S typeName) es" "cachesWF S st1"
        by auto
      have w: "wfSelection S typeName (renderSelection depth es)"
        by (rule wfSelection_full[OF r(1)])
      have ne: "leafId S typeName \<longrightarrow> renderSelection depth es \<noteq> []"
      proof
        assume "leafId S typeName"
        then have "getFields S typeName \<noteq> []" by (rule leafId_fields_nonempty)
        with r(1) have "es \<noteq> []" by (auto simp: list_all2_conv_all_nth)
        then show "renderSelection depth es \<noteq> []" by (rule renderSelection_nonempty)
      qed
      show ?thesis
        using None False l w ne cachesWF_update[OF r(2) w ne]
        by (simp add: generateFullFieldSelection.simps[of S typeName depth st] Let_def)
    qed
  qed
next
  case (2 S typeName depth fieldSelections st)
  then show ?case by simp
next
  case (3 S typeName depth fieldName field rest fieldSelections st)
  let ?x = "underlyingType (fieldType field)"
  let ?W = "entryFor S"
  from 3(8) have fsel: "fieldSelectable S (fieldName, field)"
    and rest: "list_all (fieldSelectable S) rest"
    by simp_all
  have step: "\<And>e done. ?W (fieldName, field) e \<Longrightarrow> list_all2 ?W done fieldSelections
                \<Longrightarrow> list_all2 ?W (done @ [(fieldName, field)]) (fieldSelections @ [e])"
    by (simp add: list_all2_appendI)
  show ?case
  proof (cases "isObjectType S ?x \<or> isInterfaceType S ?x")
    case comp: True
    then have c: "composite S (fieldType field)" by (simp add: composite_def)
    with fsel have sel: "selectable S (nameOf ?x)" by (simp add: fieldSelectable_def)
    then have leaf: "leafId S (nameOf ?x)" and gen: "generatedType S (nameOf ?x)"
      by (simp_all add: selectable_def)
    show ?thesis
    proof (cases "nameOf ?x = typeName")
      case True
      obtain m st1 where g: "getMinimalFieldSelection S (nameOf ?x) st = (m, st1)"
        by (cases "getMinimalFieldSelection S (nameOf ?x) st")
      with getMinimalFieldSelection_minimalOf[OF 3(7), of "nameOf ?x"]
      have m: "m = minimalOf S (nameOf ?x)" "cachesWF S st1" by simp_all
      have w: "wfSelection S (nameOf ?x) m" "m \<noteq> []"
        using m(1) wfSelection.minimal[OF leaf] minimalOf_nonempty[OF leaf] by simp_all
      have e: "?W (fieldName, field) (fieldName @ '' '' @ m)"
        using c w by (simp add: entryFor_def)
      from 3(1)[OF refl comp True refl g[symmetric] 3(6) m(2) rest] w(2)
      have ih: "(\<forall>done. list_all2 ?W done (fieldSelections @ [fieldName @ '' '' @ m]) \<longrightarrow>
                  list_all2 ?W (done @ rest)
                    (fst (generateFullFieldSelection_loop S typeName depth rest
                            (fieldSelections @ [fieldName @ '' '' @ m]) st1)))
                \<and> cachesWF S (snd (generateFullFieldSelection_loop S typeName depth rest
                            (fieldSelections @ [fieldName @ '' '' @ m]) st1))"
        by simp
      have eq: "generateFullFieldSelection_loop S typeName depth ((fieldName, field) # rest)
                  fieldSelections st
                = generateFullFieldSelection_loop S typeName depth rest
                            (fieldSelections @ [fieldName @ '' '' @ m]) st1"
        using comp True g w(2) by (simp add: Let_def)
      show ?thesis
        unfolding eq using ih step[OF e] by (metis append_Cons append_Nil append_assoc)
    next
      case False
      obtain n st1 where g: "generateFullFieldSelection S (nameOf ?x) (depth + 1) st = (n, st1)"
        by (cases "generateFullFieldSelection S (nameOf ?x) (depth + 1) st")
      from 3(2)[OF refl comp False 3(6) gen _ 3(7)] leaf g
      have n: "wfSelection S (nameOf ?x) n" "n \<noteq> []" "cachesWF S st1" by simp_all
      have e: "?W (fieldName, field) (fieldName @ '' '' @ n)"
        using c n by (simp add: entryFor_def)
      from 3(3)[OF refl comp False refl g[symmetric] 3(6) n(3) rest] n(2)
      have ih: "(\<forall>done. list_all2 ?W done (fieldSelections @ [fieldName @ '' '' @ n]) \<longrightarrow>
                  list_all2 ?W (done @ rest)
                    (fst (generateFullFieldSelection_loop S typeName depth rest
                            (fieldSelections @ [fieldName @ '' '' @ n]) st1)))
                \<and> cachesWF S (snd (generateFullFieldSelection_loop S typeName depth rest
                            (fieldSelections @ [fieldName @ '' '' @ n]) st1))"
        by simp
      have eq: "generateFullFieldSelection_loop S typeName depth ((fieldName, field) # rest)
                  fieldSelections st
                = generateFullFieldSelection_loop S typeName depth rest
                            (fieldSelections @ [fieldName @ '' '' @ n]) st1"
        using comp False g n(2) by (simp add: Let_def)
      show ?thesis
        unfolding eq using ih step[OF e] by (metis append_Cons append_Nil append_assoc)
    qed
  next
    case nocomp: False
    then have c: "\<not> composite S (fieldType field)" by (simp add: composite_def)
    show ?thesis
    proof (cases "isUnionType S ?x")
      case True
      have e: "?W (fieldName, field) (fieldName @ '' { __typename }'')"
        using c True by (simp add: entryFor_def)
      have eq: "generateFullFieldSelection_loop S typeName depth ((fieldName, field) # rest)
                  fieldSelections st
                = generateFullFieldSelection_loop S typeName depth rest
                            (fieldSelections @ [fieldName @ '' { __typename }'']) st"
        using nocomp True by (simp add: Let_def)
      from 3(4)[OF refl nocomp True 3(6) 3(7) rest]
      show ?thesis
        unfolding eq using step[OF e] by (metis append_Cons append_Nil append_assoc)
    next
      case False
      have e: "?W (fieldName, field) fieldName"
        using c False by (simp add: entryFor_def)
      have eq: "generateFullFieldSelection_loop S typeName depth ((fieldName, field) # rest)
                  fieldSelections st
                = generateFullFieldSelection_loop S typeName depth rest
                            (fieldSelections @ [fieldName]) st"
        using nocomp False by (simp add: Let_def)
      from 3(5)[OF refl nocomp False 3(6) 3(7) rest]
      show ?thesis
        unfolding eq using step[OF e] by (metis append_Cons append_Nil append_assoc)
    qed
  qed
qed


lemma generateFieldSelection_wf:
  assumes "nestedTypesSelectable S" and "cachesWF S st"
    and "composite S t \<longrightarrow> selectable S (nameOf (underlyingType t))"
  shows "(composite S t \<longrightarrow>
            fst (generateFieldSelection S t {} depth st) \<noteq> []
            \<and> wfSelection S (nameOf (underlyingType t)) (fst (generateFieldSelection S t {} depth st)))
       \<and> cachesWF S (snd (generateFieldSelection S t {} depth st))"
proof (cases "composite S t")
  case False
  then show ?thesis
    using assms(2) by (simp add: generateFieldSelection_def composite_def Let_def)
next
  case True
  let ?n = "nameOf (underlyingType t)"
  from True have comp: "isObjectType S (underlyingType t) \<or> isInterfaceType S (underlyingType t)"
    by (simp add: composite_def)
  then have ns: "\<not> isScalarType S (underlyingType t)" "\<not> isEnumType S (underlyingType t)"
    by (cases "underlyingType t"; auto split: option.splits gnamed.splits)+
  from True assms(3) have leaf: "leafId S ?n" and gen: "generatedType S ?n"
    by (simp_all add: selectable_def)
  show ?thesis
  proof (cases "typeFieldSelectionCache st ?n")
    case None
    have eq: "generateFieldSelection S t {} depth st = generateFullFieldSelection S ?n depth st"
      using comp ns None by (simp add: generateFieldSelection_def Let_def)
    from generate_wf(1)[OF assms(1) gen _ assms(2), of depth] leaf
    show ?thesis unfolding eq by simp
  next
    case (Some s)
    have eq: "generateFieldSelection S t {} depth st = (s, st)"
      using comp ns Some by (simp add: generateFieldSelection_def Let_def)
    from Some assms(2) leaf have "wfSelection S ?n s" "s \<noteq> []"
      by (auto simp: cachesWF_def)
    then show ?thesis unfolding eq using assms(2) by simp
  qed
qed

lemma generateToolForField_wf:
  assumes "nestedTypesSelectable S" and "cachesWF S st" and "fieldSelectable S (fieldName, field)"
  shows "toolSelectionWF S (fst (generateToolForField S fieldName field opType st))
       \<and> cachesWF S (snd (generateToolForField S fieldName field opType st))"
proof -
  from assms(3) have "composite S (fieldType field) \<longrightarrow>
      selectable S (nameOf (underlyingType (fieldType field)))"
    by (simp add: fieldSelectable_def)
  from generateFieldSelection_wf[OF assms(1,2) this, of 0]
  show ?thesis
    by (auto simp add: generateToolForField_def toolSelectionWF_def split: prod.splits)
qed

lemma generateTools_wf:
  assumes "nestedTypesSelectable S"
  shows "cachesWF S st \<Longrightarrow> list_all (fieldSelectable S) fs
         \<Longrightarrow> \<forall>tool \<in> set tools. toolSelectionWF S tool \<Longrightarrow>
         (\<forall>tool \<in> set (fst (generateTools S opType fs tools st)). toolSelectionWF S tool)
         \<and> cachesWF S (snd (generateTools S opType fs tools st))"
proof (induction fs arbitrary: tools st)
  case Nil
  then show ?case by simp
next
  case (Cons a fs)
  obtain fieldName field where a: "a = (fieldName, field)" by (cases a)
  obtain tool st1 where g: "generateToolForField S fieldName field opType st = (tool, st1)"
    by (cases "generateToolForField S fieldName field opType st")
  from Cons.prems(2) a have fa: "fieldSelectable S (fieldName, field)"
    and rest: "list_all (fieldSelectable S) fs"
    by simp_all
  from generateToolForField_wf[OF assms Cons.prems(1) fa, of opType] g
  have t: "toolSelectionWF S tool" "cachesWF S st1" by simp_all
  with Cons.prems(3) have "\<forall>x \<in> set (tools @ [tool]). toolSelectionWF S x" by simp
  from Cons.IH[OF t(2) rest this] show ?case using a g by simp
qed

lemma prewarm_wf:
  assumes "nestedTypesSelectable S"
  shows "cachesWF S st \<Longrightarrow> cachesWF S (prewarm S entries st)"
proof (induction entries arbitrary: st)
  case Nil
  then show ?case by simp
next
  case (Cons a entries)
  obtain typeName type where a: "a = (typeName, type)" by (cases a)
  show ?case
  proof (cases "generatedType S typeName")
    case True
    from generate_wf(1)[OF assms True _ Cons.prems, of 0]
    have "cachesWF S (snd (generateFullFieldSelection S typeName 0 st))" by simp
    from Cons.IH[OF this] show ?thesis
      using a True by (simp add: generatedType_def)
  next
    case False
    from Cons.IH[OF Cons.prems] show ?thesis
      using a False by (auto simp add: generatedType_def)
  qed
qed

lemma cachesWF_clear: "cachesWF S (clearFieldSelectionCaches st)"
  by (simp add: cachesWF_def clearFieldSelectionCaches_def)

text \<open>
  Suppose every object or interface type that a field of a generated type (or of a root
  type) unwraps to is itself generated and has a \<open>documentId\<close> or \<open>id\<close> field of leaf
  type. Then every string left in the full cache by a build, and the field selection of
  every descriptor whose return type is composite, is a selection in which each composite
  field carries a non-empty sub-selection, full or minimal, and so do the fields inside
  those sub-selections. Composite is meant as the generator sees it: after stripping at
  most one non-null, one list and one non-null layer. The condition is sufficient, not
  necessary.
\<close>

lemma composite_fields_carry_selections:
  assumes "nestedTypesSelectable S"
  shows "(\<forall>n s. typeFieldSelectionCache (snd (generateMCPToolsFromSchema S st)) n = Some s
            \<longrightarrow> wfSelection S n s)
       \<and> (\<forall>tool \<in> set (fst (generateMCPToolsFromSchema S st)). toolSelectionWF S tool)"
proof -
  define st1 where "st1 = prewarm S (typeMap S) (clearFieldSelectionCaches st)"
  define r1 where "r1 =
    (case queryType S of
       Some q \<Rightarrow> generateTools S Query (getFields S q) [] st1
     | None \<Rightarrow> ([], st1))"
  define r2 where "r2 =
    (case mutationType S of
       Some m \<Rightarrow> generateTools S Mutation (getFields S m) (fst r1) (snd r1)
     | None \<Rightarrow> (fst r1, snd r1))"
  have res: "generateMCPToolsFromSchema S st = r2"
    unfolding generateMCPToolsFromSchema_def r2_def r1_def st1_def
    by (simp add: Let_def split: prod.splits option.splits)
  from assms have roots: "list_all (fieldSelectable S) (rootFields S (queryType S))"
    "list_all (fieldSelectable S) (rootFields S (mutationType S))"
    by (simp_all add: nestedTypesSelectable_def)
  have b1: "cachesWF S st1"
    unfolding st1_def by (rule prewarm_wf[OF assms cachesWF_clear])
  have b2: "(\<forall>tool \<in> set (fst r1). toolSelectionWF S tool) \<and> cachesWF S (snd r1)"
  proof (cases "queryType S")
    case None
    then show ?thesis unfolding r1_def using b1 by simp
  next
    case (Some q)
    with roots(1) have "list_all (fieldSelectable S) (getFields S q)"
      by (simp add: rootFields_def)
    from generateTools_wf[OF assms b1 this, of "[]" Query] Some
    show ?thesis unfolding r1_def by simp
  qed
  have b3: "(\<forall>tool \<in> set (fst r2). toolSelectionWF S tool) \<and> cachesWF S (snd r2)"
  proof (cases "mutationType S")
    case None
    then show ?thesis unfolding r2_def using b2 by simp
  next
    case (Some m)
    with roots(2) have "list_all (fieldSelectable S) (getFields S m)"
      by (simp add: rootFields_def)
    from generateTools_wf[OF assms _ this, of "snd r1" "fst r1" Mutation] b2 Some
    show ?thesis unfolding r2_def by simp
  qed
  show ?thesis using res b3 by (simp add: cachesWF_def)
qed

lemma composite_fields_carry_selections_example:
  "nestedTypesSelectable blogSchema
   \<and> wfSelection blogSchema ''Post''
       (renderSelection 2 [''id'', ''author '' @ renderSelection 3 [''id'', ''posts { id }'']])
   \<and> list_all (toolSelectionWF blogSchema) blogTools"
proof -
  have h: "nestedTypesSelectable blogSchema" by code_simp
  have c: "typeFieldSelectionCache (snd (generateMCPToolsFromSchema blogSchema emptyCaches)) ''Post''
             = Some (renderSelection 2
                       [''id'', ''author '' @ renderSelection 3 [''id'', ''posts { id }'']])"
    by code_simp
  show ?thesis
    using composite_fields_carry_selections[OF h, of emptyCaches] h c
    by (simp add: blogTools_def list_all_iff)
qed


end
